theory Spec2Isabelle
  imports Complex_Main "HOL-Library.Word" "HOL-Library.Sublist"
begin

section \<open>Bytes, files and exceptions\<close>

text \<open>
  The converter works on local files and external tools. A file is a byte string, or a
  directory entry that exists (it has a size) but cannot be opened for reading. A file
  system maps paths to such nodes; a path with no node is a missing file.
\<close>

type_synonym byte = "8 word"
type_synonym path = string

datatype file_node = Readable "byte list" | Unreadable nat

type_synonym filesystem = "path \<Rightarrow> file_node option"

text \<open>
  The exceptions of the Python code that cross a function boundary: \<open>OSError\<close> (and its
  subclasses), the \<open>RuntimeError\<close> raised by the HTTP client, and any other exception
  that a call site does not catch.
\<close>

datatype exn = OSError | RuntimeError string | Unexpected

definition bytes_of :: "string \<Rightarrow> byte list" where
  "bytes_of s = map of_char s"

text \<open>Python's \<open>xs[i:j]\<close> for \<open>0 \<le> i \<le> j\<close>: it truncates at the end of the list.\<close>

definition slice :: "nat \<Rightarrow> nat \<Rightarrow> 'a list \<Rightarrow> 'a list" where
  "slice i j xs = take (j - i) (drop i xs)"

text \<open>\<open>os.path.exists\<close> and \<open>os.path.getsize\<close> (the latter raises on a missing file).\<close>

definition path_exists :: "filesystem \<Rightarrow> path \<Rightarrow> bool" where
  "path_exists fs p = (fs p \<noteq> None)"

fun node_size :: "file_node \<Rightarrow> nat" where
  "node_size (Readable bs) = length bs"
| "node_size (Unreadable n) = n"

definition getsize :: "filesystem \<Rightarrow> path \<Rightarrow> exn + nat" where
  "getsize fs p = (case fs p of None \<Rightarrow> Inl OSError | Some nd \<Rightarrow> Inr (node_size nd))"

text \<open>\<open>with open(path, "rb") as f: f.read(n)\<close>: an \<open>OSError\<close> when the file is missing or
  cannot be opened, otherwise at most \<open>n\<close> leading bytes.\<close>

definition read_prefix :: "filesystem \<Rightarrow> path \<Rightarrow> nat \<Rightarrow> exn + byte list" where
  "read_prefix fs p n =
     (case fs p of
        None \<Rightarrow> Inl OSError
      | Some (Unreadable _) \<Rightarrow> Inl OSError
      | Some (Readable bs) \<Rightarrow> Inr (take n bs))"

section \<open>Format sniffing (transcode.py)\<close>

text \<open>\<open>MAGIC_BYTES\<close>: a dict, iterated in insertion order.\<close>

definition MAGIC_BYTES :: "(byte list \<times> string) list" where
  "MAGIC_BYTES =
    [([0x00, 0x00, 0x00, 0x0c, 0x4a, 0x58, 0x4c, 0x20, 0x0d, 0x0a, 0x87, 0x0a], ''jxl''),
     ([0x89, 0x50, 0x4e, 0x47, 0x0d, 0x0a, 0x1a, 0x0a], ''png''),
     ([0xff, 0xd8, 0xff], ''jpg''),
     ([0xff, 0x0a], ''jxl''),
     ([0x49, 0x49, 0x2a, 0x00], ''tiff''),
     ([0x4d, 0x4d, 0x00, 0x2a], ''tiff''),
     ([0x47, 0x49, 0x46, 0x38], ''gif''),
     ([0x42, 0x4d], ''bmp'')]"

text \<open>\<open>for magic, fmt in MAGIC_BYTES.items(): if header.startswith(magic): return fmt\<close>\<close>

fun first_magic :: "(byte list \<times> string) list \<Rightarrow> byte list \<Rightarrow> string option" where
  "first_magic [] header = None"
| "first_magic ((magic, fmt) # rest) header =
     (if prefix magic header then Some fmt else first_magic rest header)"

text \<open>
  \<open>header[8:12].decode("ascii", errors="ignore").lower()\<close>: bytes above 0x7F are dropped,
  the letters A to Z are lowered. The decoded string is kept as its ASCII codes.
\<close>

definition ascii_lower :: "byte \<Rightarrow> byte" where
  "ascii_lower b = (if 0x41 \<le> b \<and> b \<le> 0x5A then b + 0x20 else b)"

definition decode_ascii_ignore_lower :: "byte list \<Rightarrow> byte list" where
  "decode_ascii_ignore_lower bs = map ascii_lower (filter (\<lambda>b. b < 0x80) bs)"

text \<open>The body of \<open>detect_format\<close> once the 32-byte header is read (lines 47 to 77).\<close>

definition classify_header :: "byte list \<Rightarrow> string option" where
  "classify_header header =
     (case first_magic MAGIC_BYTES header of
        Some fmt \<Rightarrow> Some fmt
      | None \<Rightarrow>
          if prefix [0x52, 0x49, 0x46, 0x46] header \<and> 12 \<le> length header
             \<and> slice 8 12 header \<in> set [bytes_of ''WEBP'', bytes_of ''WEBX'']
          then Some ''webp''
          else if prefix [0x52, 0x49, 0x46, 0x46] header \<and> 12 \<le> length header
             \<and> slice 8 12 header = bytes_of ''AVI ''
          then Some ''avi''
          else if prefix [0x1a, 0x45, 0xdf, 0xa3] header
          then Some ''mkv''
          else if 12 \<le> length header \<and> slice 4 8 header = bytes_of ''ftyp''
          then (let brand = decode_ascii_ignore_lower (slice 8 12 header) in
                if brand \<in> set [bytes_of ''heic'', bytes_of ''heix'',
                                 bytes_of ''mif1'', bytes_of ''msf1'']
                then Some ''heic''
                else if brand \<in> set [bytes_of ''avif'', bytes_of ''avis'']
                then Some ''avif''
                else Some ''mp4'')
          else if 8 \<le> length header
             \<and> slice 4 8 header \<in> set [bytes_of ''moov'', bytes_of ''mdat'', bytes_of ''wide'',
                                        bytes_of ''skip'', bytes_of ''free'', bytes_of ''pnot'']
          then Some ''mp4''
          else None)"

text \<open>\<open>detect_format\<close>: the \<open>OSError\<close> of \<open>open\<close> or \<open>read\<close> is caught and gives \<open>None\<close>.\<close>

definition detect_format :: "filesystem \<Rightarrow> path \<Rightarrow> string option" where
  "detect_format fs p =
     (case read_prefix fs p 32 of
        Inl e \<Rightarrow> None
      | Inr header \<Rightarrow> classify_header header)"

text \<open>\<open>validate_output\<close>: exists, non-zero size, sniffed format equal to the expected one.\<close>

definition validate_output :: "filesystem \<Rightarrow> path \<Rightarrow> string \<Rightarrow> bool" where
  "validate_output fs p expected_format =
     (case fs p of
        None \<Rightarrow> False
      | Some nd \<Rightarrow>
          if node_size nd = 0 then False
          else detect_format fs p = Some expected_format)"

text \<open>
  A RIFF container whose brand at bytes 8 to 12 is one of the three that \<open>detect_format\<close>
  knows.
\<close>

definition RIFF_branded :: "byte list \<Rightarrow> bool" where
  "RIFF_branded h = (prefix (bytes_of ''RIFF'') h \<and>
      slice 8 12 h \<in> set [bytes_of ''WEBP'', bytes_of ''WEBX'', bytes_of ''AVI ''])"

text \<open>A file system holding one readable file.\<close>

definition single_file :: "path \<Rightarrow> byte list \<Rightarrow> filesystem" where
  "single_file p bs = (\<lambda>q. if q = p then Some (Readable bs) else None)"

section \<open>External tools, the network and the world\<close>

text \<open>
  What \<open>subprocess.run\<close> can do: the process exits with a return code, standard output and
  standard error; it runs into the timeout; the program is missing
  (\<open>FileNotFoundError\<close>); or the call raises something no call site catches.
\<close>

datatype proc_outcome = Exited int string string | TimeoutExpired | FileNotFound | OtherFailure

text \<open>What a tool run did to the file it writes.\<close>

datatype file_change = Untouched | Written "byte list" | Removed

text \<open>The command lines of transcode.py, by program and by the arguments that vary.\<close>

datatype tool_call =
    Cjxl path path
  | Magick path path real
  | Exiftool path path
  | FfprobeCodec path
  | FfprobeDuration path
  | Ffmpeg path path int string int string

fun tool_target :: "tool_call \<Rightarrow> path option" where
  "tool_target (Cjxl i out) = Some out"
| "tool_target (Magick i out d) = Some out"
| "tool_target (Exiftool src dst) = Some dst"
| "tool_target (FfprobeCodec p) = None"
| "tool_target (FfprobeDuration p) = None"
| "tool_target (Ffmpeg i out crf preset mx rate) = Some out"

text \<open>
  The requests of immich_api.py, by endpoint and arguments, and what the HTTP library
  gives back: a response, or a \<open>requests.RequestException\<close>. Of a response the model keeps
  the status code, the body as \<open>iter_content\<close> delivers it (and the text of the exception
  when the stream breaks), what \<open>response.json()\<close> gives, and the message the error paths
  extract. The JSON body is an object, of which the \<open>id\<close> field is kept (\<open>None\<close> when it
  is absent); or a JSON value without \<open>get\<close>, for which \<open>result.get("id")\<close> raises an
  \<open>AttributeError\<close> with the given text; or no JSON at all, for which \<open>response.json()\<close>
  raises a \<open>JSONDecodeError\<close> with the given text, which is a \<open>RequestException\<close>.
\<close>

datatype http_request =
    GetOriginal string
  | GetAsset string
  | PostAsset path string string string string "string option"
  | PutCopy string string
  | DeleteAssets "string list"

datatype json_body = JsonObject "string option" | JsonOther string | NotJson string

record http_response =
  status_code :: int
  body :: "byte list"
  stream_error :: "string option"
  json :: json_body
  error_msg :: string

datatype http_outcome = Response http_response | RequestException string

datatype net_event = Sent http_request | Slept nat

text \<open>\<open>TranscodeResult\<close> (transcode.py) and the result dictionary of \<open>process_asset\<close>.\<close>

record TranscodeResult =
  success :: bool
  input_path :: path
  output_path :: path
  input_bytes :: nat
  output_bytes :: nat
  input_format :: string
  error :: "string option"

record result_info =
  status :: string
  info_input_bytes :: nat
  info_output_bytes :: nat
  savings_pct :: real

text \<open>
  The calls \<open>process_asset\<close> makes to its collaborators, each with what it returned, in
  the order they return.
\<close>

datatype call =
    CDownload string path "nat \<times> string option"
  | CDetectCodec path "string option"
  | CTranscode path path real TranscodeResult
  | CTranscodeVideo path path int string int string TranscodeResult
  | CValidate path string bool
  | CValidateVideo path bool
  | CUpload path string string string string "string option" "string option \<times> string option"
  | CCopy string string "bool \<times> string option"
  | CGet string "bool \<times> string option"
  | CDelete "string list" "bool \<times> string option"

text \<open>
  The environment answers every external call; an answer may depend on how many calls of
  that kind came before. It also says for which paths \<open>os.remove\<close> raises \<open>OSError\<close>, and
  what \<open>float(s) > 0\<close> gives (\<open>None\<close> for a \<open>ValueError\<close>).
\<close>

record environment =
  run_tool :: "nat \<Rightarrow> tool_call \<Rightarrow> proc_outcome \<times> file_change"
  http_send :: "nat \<Rightarrow> http_request \<Rightarrow> http_outcome"
  remove_denied :: "path \<Rightarrow> bool"
  float_positive :: "string \<Rightarrow> bool option"

record world =
  files :: filesystem
  tool_log :: "tool_call list"
  net_log :: "net_event list"
  calls :: "call list"

definition apply_change :: "path \<Rightarrow> file_change \<Rightarrow> filesystem \<Rightarrow> filesystem" where
  "apply_change p c fs =
     (case c of
        Untouched \<Rightarrow> fs
      | Written bs \<Rightarrow> fs(p := Some (Readable bs))
      | Removed \<Rightarrow> fs(p := None))"

text \<open>A process that started may have changed its target file; one that did not start
  has changed nothing.\<close>

definition subprocess_run :: "environment \<Rightarrow> tool_call \<Rightarrow> world \<Rightarrow> proc_outcome \<times> world" where
  "subprocess_run env c w =
     (let (outcome, change) = run_tool env (length (tool_log w)) c;
          started = (case outcome of Exited rc out err \<Rightarrow> True | TimeoutExpired \<Rightarrow> True
                     | FileNotFound \<Rightarrow> False | OtherFailure \<Rightarrow> False);
          fs' = (case tool_target c of
                   Some p \<Rightarrow> if started then apply_change p change (files w) else files w
                 | None \<Rightarrow> files w)
      in (outcome, w\<lparr>files := fs', tool_log := tool_log w @ [c]\<rparr>))"

text \<open>\<open>os.path.getsize(p) if os.path.exists(p) else 0\<close>\<close>

definition size_or_zero :: "filesystem \<Rightarrow> path \<Rightarrow> nat" where
  "size_or_zero fs p = (case fs p of None \<Rightarrow> 0 | Some nd \<Rightarrow> node_size nd)"

text \<open>Decimal digits of a number, as an f-string prints it.\<close>

function string_of_nat :: "nat \<Rightarrow> string" where
  "string_of_nat n =
     (if n < 10 then [char_of (48 + n)]
      else string_of_nat (n div 10) @ [char_of (48 + n mod 10)])"
  by pat_completeness auto
termination
  by (relation "measure id") auto

definition str_int :: "int \<Rightarrow> string" where
  "str_int i = (if i < 0 then CHR ''-'' # string_of_nat (nat (- i)) else string_of_nat (nat i))"

text \<open>\<open>str.lower\<close> and \<open>str.strip\<close>, on ASCII text.\<close>

definition lower_char :: "char \<Rightarrow> char" where
  "lower_char c =
     (let n = (of_char c :: nat) in if 65 \<le> n \<and> n \<le> 90 then char_of (n + 32) else c)"

definition py_lower :: "string \<Rightarrow> string" where
  "py_lower s = map lower_char s"

definition is_space :: "char \<Rightarrow> bool" where
  "is_space c = ((of_char c :: nat) \<in> set [9, 10, 11, 12, 13, 28, 29, 30, 31, 32])"

definition py_strip :: "string \<Rightarrow> string" where
  "py_strip s = rev (dropWhile is_space (rev (dropWhile is_space s)))"

section \<open>The transcode executor (transcode.py)\<close>

text \<open>\<open>copy_metadata\<close>: exiftool with \<open>check=True\<close>; a timeout, a non-zero exit and a
  missing program are caught and give \<open>False\<close>.\<close>

definition copy_metadata ::
  "environment \<Rightarrow> path \<Rightarrow> path \<Rightarrow> world \<Rightarrow> (exn + bool) \<times> world" where
  "copy_metadata env source_path dest_path w =
     (case subprocess_run env (Exiftool source_path dest_path) w of
        (Exited rc out err, w1) \<Rightarrow> (Inr (rc = 0), w1)
      | (TimeoutExpired, w1) \<Rightarrow> (Inr False, w1)
      | (FileNotFound, w1) \<Rightarrow> (Inr False, w1)
      | (OtherFailure, w1) \<Rightarrow> (Inl Unexpected, w1))"

definition failed_result :: "path \<Rightarrow> path \<Rightarrow> nat \<Rightarrow> nat \<Rightarrow> string \<Rightarrow> string \<Rightarrow> TranscodeResult" where
  "failed_result i out ib ob fmt msg =
     \<lparr>success = False, input_path = i, output_path = out, input_bytes = ib,
      output_bytes = ob, input_format = fmt, error = Some msg\<rparr>"

definition ok_result :: "path \<Rightarrow> path \<Rightarrow> nat \<Rightarrow> nat \<Rightarrow> string \<Rightarrow> TranscodeResult" where
  "ok_result i out ib ob fmt =
     \<lparr>success = True, input_path = i, output_path = out, input_bytes = ib,
      output_bytes = ob, input_format = fmt, error = None\<rparr>"

text \<open>\<open>_transcode_with_magick\<close> (lines 145 to 209). The result of \<open>copy_metadata\<close> is only
  logged.\<close>

definition transcode_with_magick ::
  "environment \<Rightarrow> path \<Rightarrow> path \<Rightarrow> real \<Rightarrow> world \<Rightarrow> (exn + TranscodeResult) \<times> world" where
  "transcode_with_magick env i out distance w =
     (case getsize (files w) i of
        Inl e \<Rightarrow> (Inl e, w)
      | Inr ib \<Rightarrow>
          let fmt = (case detect_format (files w) i of None \<Rightarrow> ''unknown'' | Some f \<Rightarrow> f) in
          case subprocess_run env (Magick i out distance) w of
            (Exited rc sout serr, w1) \<Rightarrow>
              if rc = 0 then
                (case copy_metadata env i out w1 of
                   (Inl e, w2) \<Rightarrow> (Inl e, w2)
                 | (Inr copied, w2) \<Rightarrow>
                     (Inr (ok_result i out ib (size_or_zero (files w2) out) fmt), w2))
              else (Inr (failed_result i out ib 0 fmt (''ImageMagick failed: '' @ serr)), w1)
          | (TimeoutExpired, w1) \<Rightarrow>
              (Inr (failed_result i out ib 0 fmt ''ImageMagick timed out after 600s''), w1)
          | (FileNotFound, w1) \<Rightarrow> (Inr (failed_result i out ib 0 fmt ''magick not found''), w1)
          | (OtherFailure, w1) \<Rightarrow> (Inl Unexpected, w1))"

text \<open>\<open>transcode\<close> (lines 212 to 288): an image to JPEG XL.\<close>

definition transcode ::
  "environment \<Rightarrow> path \<Rightarrow> path \<Rightarrow> real \<Rightarrow> world \<Rightarrow> (exn + TranscodeResult) \<times> world" where
  "transcode env i out distance w =
     (case getsize (files w) i of
        Inl e \<Rightarrow> (Inl e, w)
      | Inr ib \<Rightarrow>
          (case detect_format (files w) i of
             None \<Rightarrow>
               (Inr (failed_result i out ib 0 ''unknown'' ''Could not detect input format''), w)
           | Some fmt \<Rightarrow>
               if fmt = ''jxl'' then (Inr (failed_result i out ib ib fmt ''Already JXL''), w)
               else if fmt = ''jpg'' then
                 (case subprocess_run env (Cjxl i out) w of
                    (TimeoutExpired, w1) \<Rightarrow>
                      (Inr (failed_result i out ib 0 fmt ''cjxl timed out after 600s''), w1)
                  | (FileNotFound, w1) \<Rightarrow> transcode_with_magick env i out distance w1
                  | (OtherFailure, w1) \<Rightarrow> (Inl Unexpected, w1)
                  | (Exited rc sout serr, w1) \<Rightarrow>
                      if rc = 0
                      then (Inr (ok_result i out ib (size_or_zero (files w1) out) fmt), w1)
                      else transcode_with_magick env i out distance w1)
               else transcode_with_magick env i out distance w))"

text \<open>\<open>detect_video_codec\<close>: ffprobe; a timeout, any \<open>SubprocessError\<close> and a missing
  program give \<open>None\<close>.\<close>

definition detect_video_codec ::
  "environment \<Rightarrow> path \<Rightarrow> world \<Rightarrow> (exn + string option) \<times> world" where
  "detect_video_codec env p w =
     (case subprocess_run env (FfprobeCodec p) w of
        (Exited rc sout serr, w1) \<Rightarrow>
          if rc = 0
          then (let codec = py_lower (py_strip sout)
                in (Inr (if codec \<noteq> [] then Some codec else None), w1))
          else (Inr None, w1)
      | (TimeoutExpired, w1) \<Rightarrow> (Inr None, w1)
      | (FileNotFound, w1) \<Rightarrow> (Inr None, w1)
      | (OtherFailure, w1) \<Rightarrow> (Inl Unexpected, w1))"

text \<open>\<open>transcode_video\<close> (lines 291 to 416). The scale filter is a function of
  \<open>max_dimension\<close>, which the command carries.\<close>

definition transcode_video ::
  "environment \<Rightarrow> path \<Rightarrow> path \<Rightarrow> int \<Rightarrow> string \<Rightarrow> int \<Rightarrow> string \<Rightarrow> world
     \<Rightarrow> (exn + TranscodeResult) \<times> world" where
  "transcode_video env i out crf preset max_dimension audio_bitrate w =
     (case getsize (files w) i of
        Inl e \<Rightarrow> (Inl e, w)
      | Inr ib \<Rightarrow>
          (case detect_video_codec env i w of
             (Inl e, w1) \<Rightarrow> (Inl e, w1)
           | (Inr None, w1) \<Rightarrow>
               (Inr (failed_result i out ib 0 ''unknown'' ''Could not detect video codec''), w1)
           | (Inr (Some codec), w1) \<Rightarrow>
               if codec = ''av1'' then (Inr (failed_result i out ib ib codec ''Already AV1''), w1)
               else
                 (case subprocess_run env (Ffmpeg i out crf preset max_dimension audio_bitrate) w1 of
                    (Exited rc sout serr, w2) \<Rightarrow>
                      if rc = 0
                      then (Inr (ok_result i out ib (size_or_zero (files w2) out) codec), w2)
                      else (Inr (failed_result i out ib 0 codec (''ffmpeg failed: '' @ serr)), w2)
                  | (TimeoutExpired, w2) \<Rightarrow>
                      (Inr (failed_result i out ib 0 codec ''ffmpeg timed out after 43200s''), w2)
                  | (FileNotFound, w2) \<Rightarrow>
                      (Inr (failed_result i out ib 0 codec ''ffmpeg not found''), w2)
                  | (OtherFailure, w2) \<Rightarrow> (Inl Unexpected, w2))))"

text \<open>\<open>validate_video_output\<close>: the duration ffprobe prints must not be \<open>N/A\<close> and must
  parse as a positive number.\<close>

definition validate_video_output :: "environment \<Rightarrow> path \<Rightarrow> world \<Rightarrow> (exn + bool) \<times> world" where
  "validate_video_output env p w =
     (if \<not> path_exists (files w) p \<or> size_or_zero (files w) p = 0 then (Inr False, w)
      else
        (case subprocess_run env (FfprobeDuration p) w of
           (Exited rc sout serr, w1) \<Rightarrow>
             (let duration = py_strip sout in
              if duration = ''N/A'' then (Inr False, w1)
              else (case float_positive env duration of
                      None \<Rightarrow> (Inr False, w1)
                    | Some b \<Rightarrow> (Inr b, w1)))
         | (TimeoutExpired, w1) \<Rightarrow> (Inr False, w1)
         | (FileNotFound, w1) \<Rightarrow> (Inr False, w1)
         | (OtherFailure, w1) \<Rightarrow> (Inl Unexpected, w1)))"

section \<open>The catalog client (immich_api.py)\<close>

record Asset =
  asset_id :: string
  original_file_name :: string
  original_path :: string
  original_mime_type :: "string option"
  asset_type :: string
  device_asset_id :: string
  device_id :: string
  file_created_at :: string
  file_modified_at :: string

text \<open>Of \<open>ImmichClient\<close> the model keeps the retry parameters; \<open>retry_max\<close> is not negative
  (\<open>main\<close> passes 3), so \<open>range(retry_max + 1)\<close> is never empty.\<close>

record ImmichClient =
  retry_max :: nat
  retry_backoff :: nat

fun is_sent :: "net_event \<Rightarrow> bool" where
  "is_sent (Sent rq) = True"
| "is_sent (Slept n) = False"

text \<open>\<open>requests.request\<close>: the environment answers the request, by the number of requests
  sent before.\<close>

definition requests_request :: "environment \<Rightarrow> http_request \<Rightarrow> world \<Rightarrow> http_outcome \<times> world" where
  "requests_request env rq w =
     (http_send env (length (filter is_sent (net_log w))) rq,
      w\<lparr>net_log := net_log w @ [Sent rq]\<rparr>)"

definition time_sleep :: "nat \<Rightarrow> world \<Rightarrow> world" where
  "time_sleep n w = w\<lparr>net_log := net_log w @ [Slept n]\<rparr>"

text \<open>\<open>str(e)\<close> of a caught exception. The text of an operating system error is not
  modelled.\<close>

fun exn_str :: "exn \<Rightarrow> string" where
  "exn_str (RuntimeError m) = m"
| "exn_str OSError = ''OSError''"
| "exn_str Unexpected = ''''"

text \<open>The loop of \<open>_request_with_retry\<close> (lines 58 to 81), from attempt number
  \<open>attempt\<close> on.\<close>

function request_attempts ::
  "ImmichClient \<Rightarrow> environment \<Rightarrow> http_request \<Rightarrow> nat \<Rightarrow> world \<Rightarrow> (exn + http_response) \<times> world" where
  "request_attempts cl env rq attempt w =
     (case requests_request env rq w of
        (Response resp, w1) \<Rightarrow>
          if status_code resp = 401
          then (Inl (RuntimeError ''Authentication failed - check IMMICH_API_KEY''), w1)
          else if status_code resp = 403
          then (Inl (RuntimeError ''Forbidden - API key lacks required permissions''), w1)
          else if status_code resp = 404 then (Inr resp, w1)
          else if (status_code resp = 429 \<or> 500 \<le> status_code resp) \<and> attempt < retry_max cl
          then request_attempts cl env rq (Suc attempt)
                 (time_sleep (retry_backoff cl * 2 ^ attempt) w1)
          else (Inr resp, w1)
      | (RequestException msg, w1) \<Rightarrow>
          if attempt < retry_max cl
          then request_attempts cl env rq (Suc attempt)
                 (time_sleep (retry_backoff cl * 2 ^ attempt) w1)
          else (Inl (RuntimeError (''Request failed: '' @ msg)), w1))"
  by pat_completeness auto
termination
  by (relation "measure (\<lambda>(cl, env, rq, attempt, w). Suc (retry_max cl) - attempt)") auto

definition request_with_retry ::
  "ImmichClient \<Rightarrow> environment \<Rightarrow> http_request \<Rightarrow> world \<Rightarrow> (exn + http_response) \<times> world" where
  "request_with_retry cl env rq w = request_attempts cl env rq 0 w"

text \<open>\<open>download_original\<close>: every exception is caught. The file is opened for writing
  once the status is 200, so a stream that breaks leaves what it delivered. The scratch
  directory is taken to be writable: \<open>main\<close> creates it before any asset is processed.\<close>

definition download_original ::
  "ImmichClient \<Rightarrow> environment \<Rightarrow> string \<Rightarrow> path \<Rightarrow> world \<Rightarrow> (nat \<times> string option) \<times> world" where
  "download_original cl env aid output w =
     (case request_with_retry cl env (GetOriginal aid) w of
        (Inl e, w1) \<Rightarrow> ((0, Some (''Download failed: '' @ exn_str e)), w1)
      | (Inr resp, w1) \<Rightarrow>
          if status_code resp \<noteq> 200
          then ((0, Some (''Download failed: HTTP '' @ str_int (status_code resp))), w1)
          else
            (let w2 = w1\<lparr>files := (files w1)(output := Some (Readable (body resp)))\<rparr> in
             case stream_error resp of
               Some m \<Rightarrow> ((0, Some (''Download failed: '' @ m)), w2)
             | None \<Rightarrow> ((length (body resp), None), w2)))"

definition get_asset ::
  "ImmichClient \<Rightarrow> environment \<Rightarrow> string \<Rightarrow> world \<Rightarrow> (bool \<times> string option) \<times> world" where
  "get_asset cl env aid w =
     (case request_with_retry cl env (GetAsset aid) w of
        (Inl e, w1) \<Rightarrow> ((False, Some (exn_str e)), w1)
      | (Inr resp, w1) \<Rightarrow>
          if status_code resp = 200 then ((True, None), w1)
          else ((False, Some (''Asset not found: HTTP '' @ str_int (status_code resp))), w1))"

text \<open>The loop of \<open>upload_asset\<close> (lines 190 to 228): the file is opened at every attempt;
  401 and 403 are returned as error values. A 200 or 201 whose body is no JSON raises a
  \<open>RequestException\<close> inside the \<open>try\<close>, so it is retried like a failed request.\<close>

function upload_attempts ::
  "ImmichClient \<Rightarrow> environment \<Rightarrow> path \<Rightarrow> http_request \<Rightarrow> nat \<Rightarrow> world
     \<Rightarrow> (string option \<times> string option) \<times> world" where
  "upload_attempts cl env file_path rq attempt w =
     (case read_prefix (files w) file_path 0 of
        Inl e \<Rightarrow> ((None, Some (exn_str e)), w)
      | Inr opened \<Rightarrow>
          (case requests_request env rq w of
             (Response resp, w1) \<Rightarrow>
               if status_code resp = 401
               then ((None, Some ''Authentication failed - check IMMICH_API_KEY''), w1)
               else if status_code resp = 403
               then ((None, Some ''Forbidden - API key lacks required permissions''), w1)
               else if (status_code resp = 429 \<or> 500 \<le> status_code resp)
                       \<and> attempt < retry_max cl
               then upload_attempts cl env file_path rq (Suc attempt)
                      (time_sleep (retry_backoff cl * 2 ^ attempt) w1)
               else if status_code resp = 200 \<or> status_code resp = 201
               then (case json resp of
                       JsonObject new_id \<Rightarrow> ((new_id, None), w1)
                     | JsonOther msg \<Rightarrow> ((None, Some msg), w1)
                     | NotJson msg \<Rightarrow>
                         if attempt < retry_max cl
                         then upload_attempts cl env file_path rq (Suc attempt)
                                (time_sleep (retry_backoff cl * 2 ^ attempt) w1)
                         else ((None, Some (''Upload failed after retries: '' @ msg)), w1))
               else ((None, Some (''Upload failed: HTTP '' @ str_int (status_code resp)
                                   @ '' - '' @ error_msg resp)), w1)
           | (RequestException msg, w1) \<Rightarrow>
               if attempt < retry_max cl
               then upload_attempts cl env file_path rq (Suc attempt)
                      (time_sleep (retry_backoff cl * 2 ^ attempt) w1)
               else ((None, Some (''Upload failed after retries: '' @ msg)), w1)))"
  by pat_completeness auto
termination
  by (relation "measure (\<lambda>(cl, env, fp, rq, attempt, w). Suc (retry_max cl) - attempt)") auto

definition upload_asset ::
  "ImmichClient \<Rightarrow> environment \<Rightarrow> path \<Rightarrow> string \<Rightarrow> string \<Rightarrow> string \<Rightarrow> string \<Rightarrow> string option
     \<Rightarrow> world \<Rightarrow> (string option \<times> string option) \<times> world" where
  "upload_asset cl env file_path dev_asset_id dev_id created modified filename w =
     upload_attempts cl env file_path
       (PostAsset file_path dev_asset_id dev_id created modified
          (case filename of None \<Rightarrow> None | Some f \<Rightarrow> if f = [] then None else Some f))
       0 w"

definition copy_asset_data ::
  "ImmichClient \<Rightarrow> environment \<Rightarrow> string \<Rightarrow> string \<Rightarrow> world \<Rightarrow> (bool \<times> string option) \<times> world" where
  "copy_asset_data cl env from_id to_id w =
     (case request_with_retry cl env (PutCopy from_id to_id) w of
        (Inl e, w1) \<Rightarrow> ((False, Some (exn_str e)), w1)
      | (Inr resp, w1) \<Rightarrow>
          if status_code resp = 204 then ((True, None), w1)
          else ((False, Some (''Copy failed: HTTP '' @ str_int (status_code resp)
                              @ '' - '' @ error_msg resp)), w1))"

definition delete_assets ::
  "ImmichClient \<Rightarrow> environment \<Rightarrow> string list \<Rightarrow> world \<Rightarrow> (bool \<times> string option) \<times> world" where
  "delete_assets cl env ids w =
     (case request_with_retry cl env (DeleteAssets ids) w of
        (Inl e, w1) \<Rightarrow> ((False, Some (exn_str e)), w1)
      | (Inr resp, w1) \<Rightarrow>
          if status_code resp = 204 then ((True, None), w1)
          else ((False, Some (''Delete failed: HTTP '' @ str_int (status_code resp))), w1))"

section \<open>The per-asset pipeline (main.py)\<close>

text \<open>The fields of \<open>Config\<close> that \<open>process_asset\<close> reads.\<close>

record Config =
  dry_run :: bool
  image_distance :: real
  image_distance_retry :: real
  video_crf :: int
  video_preset :: string
  video_max_dimension :: int
  video_audio_bitrate :: string
  video_crf_retry :: int
  enable_retry :: bool
  accept_retry_output :: bool
  allow_larger :: bool
  workdir :: string

definition input_dir :: "Config \<Rightarrow> path" where
  "input_dir config = workdir config @ ''/in''"

definition output_dir :: "Config \<Rightarrow> path" where
  "output_dir config = workdir config @ ''/out''"

text \<open>\<open>os.path.join\<close> of two components and \<open>os.path.splitext\<close>, as posixpath has them:
  the extension starts at the last dot of the last component, leading dots apart.\<close>

definition path_join :: "path \<Rightarrow> string \<Rightarrow> path" where
  "path_join a b =
     (if b \<noteq> [] \<and> hd b = CHR ''/'' then b
      else if a = [] \<or> last a = CHR ''/'' then a @ b
      else a @ ''/'' @ b)"

definition rfind :: "char \<Rightarrow> string \<Rightarrow> int" where
  "rfind c s =
     (case filter (\<lambda>i. s ! i = c) (rev [0..<length s]) of
        [] \<Rightarrow> - 1
      | i # rest \<Rightarrow> int i)"

definition splitext :: "string \<Rightarrow> string \<times> string" where
  "splitext p =
     (let sepIndex = rfind CHR ''/'' p; dotIndex = rfind CHR ''.'' p in
      if dotIndex > sepIndex
         \<and> list_ex (\<lambda>k. p ! k \<noteq> CHR ''.'') [nat (sepIndex + 1)..<nat dotIndex]
      then (take (nat dotIndex) p, drop (nat dotIndex) p)
      else (p, []))"

text \<open>The truth value Python gives an optional string.\<close>

definition truthy :: "string option \<Rightarrow> bool" where
  "truthy s = (case s of None \<Rightarrow> False | Some t \<Rightarrow> t \<noteq> [])"

definition get_target_format :: "Asset \<Rightarrow> string" where
  "get_target_format asset = (if asset_type asset = ''VIDEO'' then ''mp4'' else ''jxl'')"

definition should_skip_by_mime_type :: "Asset \<Rightarrow> bool" where
  "should_skip_by_mime_type asset =
     (if asset_type asset \<noteq> ''IMAGE'' then False
      else if truthy (original_mime_type asset)
              \<and> map_option py_lower (original_mime_type asset) = Some ''image/jxl''
      then True
      else py_lower (snd (splitext (original_file_name asset))) = ''.jxl'')"

definition log_call :: "call \<Rightarrow> world \<Rightarrow> world" where
  "log_call c w = w\<lparr>calls := calls w @ [c]\<rparr>"

text \<open>What a part of the \<open>try\<close> block does: it raises, it returns the result dictionary, or
  it goes on to the next statement.\<close>

datatype 'a flow = Raise exn | Return result_info | Next 'a

text \<open>Lines 72 to 105: the dry run of an image, the download, the dry run of a video.\<close>

definition download_stage ::
  "ImmichClient \<Rightarrow> environment \<Rightarrow> Asset \<Rightarrow> Config \<Rightarrow> bool \<Rightarrow> path \<Rightarrow> result_info \<Rightarrow> world
     \<Rightarrow> (nat \<times> result_info) flow \<times> world" where
  "download_stage cl env asset config is_video inp info w =
     (if dry_run config \<and> \<not> is_video then (Return (info\<lparr>status := ''dry_run_skip''\<rparr>), w)
      else
        (case download_original cl env (asset_id asset) inp w of
           ((ib, err), w1) \<Rightarrow>
             (let w2 = log_call (CDownload (asset_id asset) inp (ib, err)) w1 in
              if truthy err then (Return (info\<lparr>status := ''failed_download''\<rparr>), w2)
              else if dry_run config \<and> is_video then
                (case detect_video_codec env inp w2 of
                   (Inl e, w3) \<Rightarrow> (Raise e, w3)
                 | (Inr codec, w3) \<Rightarrow>
                     (Return (info\<lparr>info_input_bytes := ib,
                                    status := (if codec = Some ''av1'' then ''skipped''
                                               else ''dry_run_skip'')\<rparr>),
                      log_call (CDetectCodec inp codec) w3))
              else (Next (ib, info\<lparr>info_input_bytes := ib\<rparr>), w2))))"

text \<open>One transcode attempt with its validation (lines 107 to 119, and again lines 145 to
  169 with the retry parameters). The validator runs whatever the transcode returned.\<close>

definition transcode_and_validate ::
  "environment \<Rightarrow> Config \<Rightarrow> bool \<Rightarrow> int \<Rightarrow> real \<Rightarrow> path \<Rightarrow> path \<Rightarrow> world
     \<Rightarrow> (exn + TranscodeResult \<times> bool) \<times> world" where
  "transcode_and_validate env config is_video crf distance inp out w =
     (if is_video then
        (case transcode_video env inp out crf (video_preset config) (video_max_dimension config)
                (video_audio_bitrate config) w of
           (Inl e, w1) \<Rightarrow> (Inl e, w1)
         | (Inr result, w1) \<Rightarrow>
             (case validate_video_output env out
                     (log_call (CTranscodeVideo inp out crf (video_preset config)
                        (video_max_dimension config) (video_audio_bitrate config) result) w1) of
                (Inl e, w2) \<Rightarrow> (Inl e, w2)
              | (Inr is_valid, w2) \<Rightarrow>
                  (Inr (result, is_valid), log_call (CValidateVideo out is_valid) w2)))
      else
        (case transcode env inp out distance w of
           (Inl e, w1) \<Rightarrow> (Inl e, w1)
         | (Inr result, w1) \<Rightarrow>
             (let is_valid = validate_output (files w1) out ''jxl'' in
              (Inr (result, is_valid),
               log_call (CValidate out ''jxl'' is_valid)
                 (log_call (CTranscode inp out distance result) w1)))))"

text \<open>Lines 107 to 136: the first attempt and what its result means.\<close>

definition transcode_stage ::
  "environment \<Rightarrow> Config \<Rightarrow> bool \<Rightarrow> path \<Rightarrow> path \<Rightarrow> result_info \<Rightarrow> world
     \<Rightarrow> (nat \<times> result_info) flow \<times> world" where
  "transcode_stage env config is_video inp out info w =
     (case transcode_and_validate env config is_video (video_crf config) (image_distance config)
             inp out w of
        (Inl e, w1) \<Rightarrow> (Raise e, w1)
      | (Inr (result, is_valid), w1) \<Rightarrow>
          if \<not> success result then
            (if truthy (error result) \<and> prefix ''Already '' (case_option [] id (error result))
             then (Return (info\<lparr>status := ''skipped''\<rparr>), w1)
             else (Return (info\<lparr>status := ''failed_transcode''\<rparr>), w1))
          else if \<not> is_valid then (Return (info\<lparr>status := ''failed_transcode''\<rparr>), w1)
          else (Next (output_bytes result, info\<lparr>info_output_bytes := output_bytes result\<rparr>), w1))"

text \<open>Lines 138 to 193: what happens when the output is larger than the input.\<close>

definition retry_stage ::
  "environment \<Rightarrow> Config \<Rightarrow> bool \<Rightarrow> path \<Rightarrow> path \<Rightarrow> nat \<Rightarrow> nat \<Rightarrow> result_info \<Rightarrow> world
     \<Rightarrow> (nat \<times> result_info) flow \<times> world" where
  "retry_stage env config is_video inp out ib ob info w =
     (if ob > ib then
        (if allow_larger config then (Next (ob, info), w)
         else if enable_retry config then
           (case transcode_and_validate env config is_video (video_crf_retry config)
                   (image_distance_retry config) inp out w of
              (Inl e, w1) \<Rightarrow> (Raise e, w1)
            | (Inr (result, is_valid), w1) \<Rightarrow>
                if \<not> success result \<or> \<not> is_valid
                then (Return (info\<lparr>status := ''skipped''\<rparr>), w1)
                else if output_bytes result > ib \<and> \<not> accept_retry_output config
                then (Return (info\<lparr>info_output_bytes := output_bytes result,
                                     status := ''skipped''\<rparr>), w1)
                else (Next (output_bytes result,
                            info\<lparr>info_output_bytes := output_bytes result\<rparr>), w1))
         else (Return (info\<lparr>status := ''skipped''\<rparr>), w))
      else (Next (ob, info), w))"

text \<open>Lines 195 to 255: the savings, then upload, copy, verify and delete. No call of the
  client raises.\<close>

definition replace_stage ::
  "ImmichClient \<Rightarrow> environment \<Rightarrow> Asset \<Rightarrow> string \<Rightarrow> path \<Rightarrow> nat \<Rightarrow> nat \<Rightarrow> result_info \<Rightarrow> world
     \<Rightarrow> result_info \<times> world" where
  "replace_stage cl env asset target_format out ib ob info0 w =
     (let info = (if ib > 0
                  then info0\<lparr>savings_pct := (real_of_int (int ib - int ob) / real ib) * 100\<rparr>
                  else info0);
          new_filename = fst (splitext (original_file_name asset)) @ ''.'' @ target_format;
          new_device_asset_id = asset_id asset @ ''-'' @ target_format
      in
      case upload_asset cl env out new_device_asset_id (device_id asset) (file_created_at asset)
             (file_modified_at asset) (Some new_filename) w of
        ((new_asset_id, err), w1') \<Rightarrow>
          (let w1 = log_call (CUpload out new_device_asset_id (device_id asset)
                      (file_created_at asset) (file_modified_at asset) (Some new_filename)
                      (new_asset_id, err)) w1' in
           case new_asset_id of
             None \<Rightarrow> (info\<lparr>status := ''failed_upload''\<rparr>, w1)
           | Some nid \<Rightarrow>
               if truthy err \<or> nid = [] then (info\<lparr>status := ''failed_upload''\<rparr>, w1)
               else
                 (case copy_asset_data cl env (asset_id asset) nid w1 of
                    (copied, w2') \<Rightarrow>
                      (let w2 = log_call (CCopy (asset_id asset) nid copied) w2' in
                       if \<not> fst copied then
                         (case delete_assets cl env [nid] w2 of
                            (deleted, w3) \<Rightarrow>
                              (info\<lparr>status := ''failed_copy''\<rparr>,
                               log_call (CDelete [nid] deleted) w3))
                       else
                         (case get_asset cl env nid w2 of
                            (verified, w3') \<Rightarrow>
                              (let w3 = log_call (CGet nid verified) w3' in
                               if \<not> fst verified then
                                 (case delete_assets cl env [nid] w3 of
                                    (deleted, w4) \<Rightarrow>
                                      (info\<lparr>status := ''failed_verification''\<rparr>,
                                       log_call (CDelete [nid] deleted) w4))
                               else
                                 (case delete_assets cl env [asset_id asset] w3 of
                                    (deleted, w4) \<Rightarrow>
                                      (info\<lparr>status := (if \<not> fst deleted then ''partial_success''
                                                          else ''success'')\<rparr>,
                                       log_call (CDelete [asset_id asset] deleted) w4))))))))"

text \<open>The \<open>try\<close> block of \<open>process_asset\<close> (lines 66 to 255).\<close>

definition process_body ::
  "ImmichClient \<Rightarrow> environment \<Rightarrow> Asset \<Rightarrow> Config \<Rightarrow> path \<Rightarrow> path \<Rightarrow> world
     \<Rightarrow> (exn + result_info) \<times> world" where
  "process_body cl env asset config inp out w =
     (let is_video = (asset_type asset = ''VIDEO'');
          info = \<lparr>status = ''unknown'', info_input_bytes = 0, info_output_bytes = 0,
                  savings_pct = 0\<rparr>
      in
      case download_stage cl env asset config is_video inp info w of
        (Raise e, w1) \<Rightarrow> (Inl e, w1)
      | (Return r, w1) \<Rightarrow> (Inr r, w1)
      | (Next (ib, info1), w1) \<Rightarrow>
          (case transcode_stage env config is_video inp out info1 w1 of
             (Raise e, w2) \<Rightarrow> (Inl e, w2)
           | (Return r, w2) \<Rightarrow> (Inr r, w2)
           | (Next (ob, info2), w2) \<Rightarrow>
               (case retry_stage env config is_video inp out ib ob info2 w2 of
                  (Raise e, w3) \<Rightarrow> (Inl e, w3)
                | (Return r, w3) \<Rightarrow> (Inr r, w3)
                | (Next (ob', info3), w3) \<Rightarrow>
                    (case replace_stage cl env asset (get_target_format asset) out ib ob' info3 w3 of
                       (r, w4) \<Rightarrow> (Inr r, w4)))))"

text \<open>The \<open>finally\<close> block, for one path: a failing \<open>os.remove\<close> is logged, the file
  stays.\<close>

definition cleanup :: "environment \<Rightarrow> path \<Rightarrow> world \<Rightarrow> world" where
  "cleanup env p w =
     (if p \<noteq> [] \<and> path_exists (files w) p
      then (if remove_denied env p then w else w\<lparr>files := (files w)(p := None)\<rparr>)
      else w)"

definition scratch_input :: "Config \<Rightarrow> Asset \<Rightarrow> path" where
  "scratch_input config asset = path_join (input_dir config) (asset_id asset @ ''.bin'')"

definition scratch_output :: "Config \<Rightarrow> Asset \<Rightarrow> path" where
  "scratch_output config asset =
     path_join (output_dir config) (asset_id asset @ ''.'' @ get_target_format asset)"

text \<open>\<open>process_asset\<close>: the pre-filter returns before the \<open>try\<close> block; otherwise the
  block runs and both scratch paths are cleaned up, whether it returns or raises.\<close>

definition process_asset ::
  "ImmichClient \<Rightarrow> environment \<Rightarrow> Asset \<Rightarrow> Config \<Rightarrow> world \<Rightarrow> (exn + result_info) \<times> world" where
  "process_asset cl env asset config w =
     (if asset_type asset \<noteq> ''VIDEO'' \<and> should_skip_by_mime_type asset
      then (Inr \<lparr>status = ''skipped'', info_input_bytes = 0, info_output_bytes = 0,
                 savings_pct = 0\<rparr>, w)
      else
        (case process_body cl env asset config (scratch_input config asset)
                (scratch_output config asset) w of
           (r, w1) \<Rightarrow>
             (r, cleanup env (scratch_output config asset)
                   (cleanup env (scratch_input config asset) w1))))"

text \<open>The loop of \<open>main\<close> over the submitted assets (lines 359 to 381), for workers that
  run one after the other: an exception that leaves \<open>process_asset\<close> becomes the status
  \<open>error\<close> and the loop goes on.\<close>

fun process_batch ::
  "ImmichClient \<Rightarrow> environment \<Rightarrow> Config \<Rightarrow> Asset list \<Rightarrow> world \<Rightarrow> result_info list \<times> world" where
  "process_batch cl env config [] w = ([], w)"
| "process_batch cl env config (asset # rest) w =
     (case process_asset cl env asset config w of
        (r, w1) \<Rightarrow>
          (case process_batch cl env config rest w1 of
             (rs, w2) \<Rightarrow>
               ((case r of
                   Inl e \<Rightarrow> \<lparr>status = ''error'', info_input_bytes = 0, info_output_bytes = 0,
                              savings_pct = 0\<rparr>
                 | Inr info \<Rightarrow> info) # rs, w2)))"

section \<open>Observations on the call log\<close>

text \<open>The calls of the replace protocol, the transcode attempts and the uploads among the
  logged calls, and the calls a run has added to the log.\<close>

fun is_replace_call :: "call \<Rightarrow> bool" where
  "is_replace_call (CUpload p a b c d f r) = True"
| "is_replace_call (CCopy a b r) = True"
| "is_replace_call (CGet a r) = True"
| "is_replace_call (CDelete ids r) = True"
| "is_replace_call c = False"

fun is_attempt :: "call \<Rightarrow> bool" where
  "is_attempt (CTranscode i out d r) = True"
| "is_attempt (CTranscodeVideo i out crf preset mx rate r) = True"
| "is_attempt c = False"

fun is_upload :: "call \<Rightarrow> bool" where
  "is_upload (CUpload p a b c d f r) = True"
| "is_upload c = False"

fun is_delete :: "call \<Rightarrow> bool" where
  "is_delete (CDelete ids r) = True"
| "is_delete c = False"

definition new_calls :: "world \<Rightarrow> world \<Rightarrow> call list" where
  "new_calls w w' = drop (length (calls w)) (calls w')"

text \<open>The log entry of a transcode attempt with the given quality parameters.\<close>

definition attempt_call ::
  "Config \<Rightarrow> bool \<Rightarrow> int \<Rightarrow> real \<Rightarrow> path \<Rightarrow> path \<Rightarrow> TranscodeResult \<Rightarrow> call" where
  "attempt_call config is_video crf distance inp out result =
     (if is_video
      then CTranscodeVideo inp out crf (video_preset config) (video_max_dimension config)
             (video_audio_bitrate config) result
      else CTranscode inp out distance result)"

text \<open>The result dictionary as \<open>process_asset\<close> sets it up.\<close>

definition initial_info :: result_info where
  "initial_info =
     \<lparr>status = ''unknown'', info_input_bytes = 0, info_output_bytes = 0, savings_pct = 0\<rparr>"

text \<open>The id an upload call returned.\<close>

fun upload_result :: "call \<Rightarrow> string option" where
  "upload_result (CUpload p a b c d f r) = fst r"
| "upload_result c = None"

text \<open>
  The calls of the replace protocol as \<open>process_asset\<close> can make them, with the status it
  then returns: an upload that fails; an upload, a failed copy and the delete of the new
  asset; an upload, a copy, a failed verification and the delete of the new asset; or an
  upload, a copy, a verification and the delete of the original.
\<close>

inductive replace_trace :: "Asset \<Rightarrow> call list \<Rightarrow> string \<Rightarrow> bool" for asset where
  failed_upload:
    "replace_trace asset [CUpload p a b c d f (x, e1)] ''failed_upload''"
| failed_copy:
    "\<not> truthy e1 \<Longrightarrow> nid \<noteq> [] \<Longrightarrow>
     replace_trace asset
       [CUpload p a b c d f (Some nid, e1), CCopy (asset_id asset) nid (False, e2),
        CDelete [nid] dl] ''failed_copy''"
| failed_verification:
    "\<not> truthy e1 \<Longrightarrow> nid \<noteq> [] \<Longrightarrow>
     replace_trace asset
       [CUpload p a b c d f (Some nid, e1), CCopy (asset_id asset) nid (True, e2),
        CGet nid (False, e3), CDelete [nid] dl] ''failed_verification''"
| replaced:
    "\<not> truthy e1 \<Longrightarrow> nid \<noteq> [] \<Longrightarrow>
     replace_trace asset
       [CUpload p a b c d f (Some nid, e1), CCopy (asset_id asset) nid (True, e2),
        CGet nid (True, e3), CDelete [asset_id asset] (ok, e4)]
       (if ok then ''success'' else ''partial_success'')"

text \<open>The message of the error that a 401 or a 403 is turned into (immich_api.py, lines 62
  to 65 and 199 to 202).\<close>

definition auth_message :: "int \<Rightarrow> string" where
  "auth_message code =
     (if code = 401 then ''Authentication failed - check IMMICH_API_KEY''
      else ''Forbidden - API key lacks required permissions'')"

section \<open>Test fixtures\<close>

text \<open>
  An environment whose tools answer from a script, in the order of the calls (a missing
  program once the script is used up); a world with the given files and empty logs; and
  three 32-byte files, as the test suite writes them.
\<close>

definition scripted_tools :: "(proc_outcome \<times> file_change) list \<Rightarrow> environment" where
  "scripted_tools answers =
     \<lparr>run_tool = (\<lambda>n c. if n < length answers then answers ! n else (FileNotFound, Untouched)),
      http_send = (\<lambda>n r. RequestException ''unreachable''),
      remove_denied = (\<lambda>p. False),
      float_positive = (\<lambda>s. None)\<rparr>"

definition world_of :: "filesystem \<Rightarrow> world" where
  "world_of fs = \<lparr>files = fs, tool_log = [], net_log = [], calls = []\<rparr>"

definition jpeg_file :: "byte list" where
  "jpeg_file = [0xff, 0xd8, 0xff] @ replicate 29 0"

definition png_file :: "byte list" where
  "png_file = [0x89, 0x50, 0x4e, 0x47, 0x0d, 0x0a, 0x1a, 0x0a] @ replicate 24 0"

definition jxl_file :: "byte list" where
  "jxl_file = [0xff, 0x0a] @ replicate 30 0"

text \<open>
  An environment whose tools and whose server answer from scripts, and in which \<open>os.remove\<close>
  fails for the listed paths; a response with the given status, body and JSON; an image
  asset, the configuration and the client as \<open>main\<close> sets them up by default; and two runs
  of \<open>process_asset\<close> on a JPEG that cjxl repacks: one in which every request succeeds, one
  in which the delete of the original is answered with 400.
\<close>

definition scripted_env ::
  "(proc_outcome \<times> file_change) list \<Rightarrow> http_outcome list \<Rightarrow> path list \<Rightarrow> environment" where
  "scripted_env answers replies denied =
     \<lparr>run_tool = (\<lambda>n c. if n < length answers then answers ! n else (FileNotFound, Untouched)),
      http_send = (\<lambda>n r. if n < length replies then replies ! n
                           else RequestException ''unreachable''),
      remove_denied = (\<lambda>p. p \<in> set denied),
      float_positive = (\<lambda>s. None)\<rparr>"

definition reply :: "int \<Rightarrow> byte list \<Rightarrow> json_body \<Rightarrow> http_outcome" where
  "reply code bs j =
     Response \<lparr>status_code = code, body = bs, stream_error = None, json = j, error_msg = []\<rparr>"

definition photo :: Asset where
  "photo =
     \<lparr>asset_id = ''a1'', original_file_name = ''IMG_0001.jpg'',
      original_path = ''/library/IMG_0001.jpg'', original_mime_type = Some ''image/jpeg'',
      asset_type = ''IMAGE'', device_asset_id = ''d1'', device_id = ''phone'',
      file_created_at = ''2024-01-01T00:00:00Z'', file_modified_at = ''2024-01-01T00:00:00Z''\<rparr>"

definition default_config :: Config where
  "default_config =
     \<lparr>dry_run = False, image_distance = 1, image_distance_retry = 2, video_crf = 36,
      video_preset = ''4'', video_max_dimension = 0, video_audio_bitrate = ''64k'',
      video_crf_retry = 40, enable_retry = True, accept_retry_output = False,
      allow_larger = False, workdir = ''/work''\<rparr>"

definition default_client :: ImmichClient where
  "default_client = \<lparr>retry_max = 3, retry_backoff = 2\<rparr>"

definition replaced_run :: "(exn + result_info) \<times> world" where
  "replaced_run =
     process_asset default_client
       (scripted_env [(Exited 0 [] [], Written jxl_file)]
          [reply 200 jpeg_file (NotJson []), reply 201 [] (JsonObject (Some ''n1'')),
           reply 204 [] (NotJson []), reply 200 [] (JsonObject (Some ''n1'')),
           reply 204 [] (NotJson [])] [])
       photo default_config (world_of Map.empty)"

definition kept_original_run :: "(exn + result_info) \<times> world" where
  "kept_original_run =
     process_asset default_client
       (scripted_env [(Exited 0 [] [], Written jxl_file)]
          [reply 200 jpeg_file (NotJson []), reply 201 [] (JsonObject (Some ''n1'')),
           reply 204 [] (NotJson []), reply 200 [] (JsonObject (Some ''n1'')),
           reply 400 [] (NotJson [])] [])
       photo default_config (world_of Map.empty)"

text \<open>
  A run in which the download delivers a file of no known format and \<open>os.remove\<close> fails for
  the input scratch path.
\<close>

definition stuck_run :: "(exn + result_info) \<times> world" where
  "stuck_run =
     process_asset default_client
       (scripted_env [] [reply 200 (bytes_of ''UNKNOWN FORMAT DATA'') (NotJson [])]
          [''/work/in/a1.bin''])
       photo default_config (world_of Map.empty)"

text \<open>
  A second asset, and a batch of the two assets against a server that answers every request
  with 401.
\<close>

definition second_photo :: Asset where
  "second_photo = photo\<lparr>asset_id := ''a2'', original_file_name := ''IMG_0002.jpg''\<rparr>"

definition unauthorized_batch :: "result_info list \<times> world" where
  "unauthorized_batch =
     process_batch default_client
       (scripted_env [] [reply 401 [] (NotJson []), reply 401 [] (NotJson [])] [])
       default_config [photo, second_photo] (world_of Map.empty)"

text \<open>
  A run on a three-byte JPEG that cjxl first repacks to 32 bytes and, at the second attempt,
  to two bytes; every request succeeds.
\<close>

definition retried_env :: environment where
  "retried_env =
     scripted_env [(Exited 0 [] [], Written jxl_file), (Exited 0 [] [], Written [0xff, 0x0a])]
       [reply 200 [0xff, 0xd8, 0xff] (NotJson []), reply 201 [] (JsonObject (Some ''n1'')),
        reply 204 [] (NotJson []), reply 200 [] (JsonObject (Some ''n1'')),
        reply 204 [] (NotJson [])] []"

definition retried_run :: "(exn + result_info) \<times> world" where
  "retried_run = process_asset default_client retried_env photo default_config (world_of Map.empty)"

section \<open>Properties of format sniffing\<close>

lemma slice_full_length: "slice i j xs = ys \<Longrightarrow> length ys = j - i \<Longrightarrow> i < j \<Longrightarrow> j \<le> length xs"
  by (auto simp: slice_def)

lemma first_magic_None_iff:
  "first_magic tbl h = None \<longleftrightarrow> (\<forall>m \<in> fst ` set tbl. \<not> prefix m h)"
  by (induction tbl h rule: first_magic.induct) auto

lemma classify_png:
  assumes "prefix [0x89, 0x50, 0x4e, 0x47, 0x0d, 0x0a, 0x1a, 0x0a] h"
  shows "classify_header h = Some ''png''"
proof -
  from assms obtain r where "h = [0x89, 0x50, 0x4e, 0x47, 0x0d, 0x0a, 0x1a, 0x0a] @ r"
    by (auto simp: prefix_def)
  then show ?thesis by (simp add: classify_header_def MAGIC_BYTES_def)
qed

lemma classify_jpg:
  assumes "prefix [0xff, 0xd8, 0xff] h"
  shows "classify_header h = Some ''jpg''"
proof -
  from assms obtain r where "h = [0xff, 0xd8, 0xff] @ r" by (auto simp: prefix_def)
  then show ?thesis by (simp add: classify_header_def MAGIC_BYTES_def)
qed

lemma classify_jxl_codestream:
  assumes "prefix [0xff, 0x0a] h"
  shows "classify_header h = Some ''jxl''"
proof -
  from assms obtain r where "h = [0xff, 0x0a] @ r" by (auto simp: prefix_def)
  then show ?thesis by (simp add: classify_header_def MAGIC_BYTES_def)
qed

lemma classify_jxl_container:
  assumes "prefix [0x00, 0x00, 0x00, 0x0c, 0x4a, 0x58, 0x4c, 0x20, 0x0d, 0x0a, 0x87, 0x0a] h"
  shows "classify_header h = Some ''jxl''"
proof -
  from assms obtain r
    where "h = [0x00, 0x00, 0x00, 0x0c, 0x4a, 0x58, 0x4c, 0x20, 0x0d, 0x0a, 0x87, 0x0a] @ r"
    by (auto simp: prefix_def)
  then show ?thesis by (simp add: classify_header_def MAGIC_BYTES_def)
qed

lemma first_magic_RIFF:
  assumes "prefix (bytes_of ''RIFF'') h"
  shows "first_magic MAGIC_BYTES h = None"
proof -
  from assms obtain r where "h = 0x52 # 0x49 # 0x46 # 0x46 # r"
    by (auto simp: prefix_def bytes_of_def)
  then show ?thesis by (simp add: MAGIC_BYTES_def)
qed

lemma first_magic_mkv:
  assumes "prefix [0x1a, 0x45, 0xdf, 0xa3] h"
  shows "first_magic MAGIC_BYTES h = None"
proof -
  from assms obtain r where "h = 0x1a # 0x45 # 0xdf # 0xa3 # r"
    by (auto simp: prefix_def)
  then show ?thesis by (simp add: MAGIC_BYTES_def)
qed

lemma classify_webp:
  assumes "prefix (bytes_of ''RIFF'') h"
    and "slice 8 12 h = bytes_of ''WEBP'' \<or> slice 8 12 h = bytes_of ''WEBX''"
  shows "classify_header h = Some ''webp''"
proof -
  have "12 \<le> length h"
    using assms(2) by (auto dest!: slice_full_length simp: bytes_of_def)
  moreover have "prefix [0x52, 0x49, 0x46, 0x46] h"
    using assms(1) by (simp add: bytes_of_def)
  moreover have "slice 8 12 h \<in> set [bytes_of ''WEBP'', bytes_of ''WEBX'']"
    using assms(2) by auto
  ultimately have c: "prefix [0x52, 0x49, 0x46, 0x46] h \<and> 12 \<le> length h
             \<and> slice 8 12 h \<in> set [bytes_of ''WEBP'', bytes_of ''WEBX'']" by blast
  show ?thesis unfolding classify_header_def
    by (simp only: first_magic_RIFF[OF assms(1)] option.case if_P[OF c])
qed

lemma classify_avi:
  assumes "prefix (bytes_of ''RIFF'') h" and "slice 8 12 h = bytes_of ''AVI ''"
  shows "classify_header h = Some ''avi''"
proof -
  have "12 \<le> length h"
    using assms(2) by (auto dest!: slice_full_length simp: bytes_of_def)
  moreover have "prefix [0x52, 0x49, 0x46, 0x46] h"
    using assms(1) by (simp add: bytes_of_def)
  ultimately have c: "prefix [0x52, 0x49, 0x46, 0x46] h \<and> 12 \<le> length h
             \<and> slice 8 12 h = bytes_of ''AVI ''" using assms(2) by blast
  have "bytes_of ''AVI '' \<noteq> bytes_of ''WEBP''" "bytes_of ''AVI '' \<noteq> bytes_of ''WEBX''"
    by (simp_all add: bytes_of_def)
  then have d: "\<not> (prefix [0x52, 0x49, 0x46, 0x46] h \<and> 12 \<le> length h
             \<and> slice 8 12 h \<in> set [bytes_of ''WEBP'', bytes_of ''WEBX''])"
    using assms(2) by auto
  show ?thesis unfolding classify_header_def
    by (simp only: first_magic_RIFF[OF assms(1)] option.case if_P[OF c] if_not_P[OF d])
qed

lemma classify_mkv:
  assumes "prefix [0x1a, 0x45, 0xdf, 0xa3] h"
  shows "classify_header h = Some ''mkv''"
proof -
  from assms obtain r where "h = 0x1a # 0x45 # 0xdf # 0xa3 # r"
    by (auto simp: prefix_def)
  then show ?thesis by (simp add: classify_header_def MAGIC_BYTES_def)
qed

lemma classify_tiff:
  assumes "prefix [0x49, 0x49, 0x2a, 0x00] h \<or> prefix [0x4d, 0x4d, 0x00, 0x2a] h"
  shows "classify_header h = Some ''tiff''"
proof -
  from assms consider r where "h = 0x49 # 0x49 # 0x2a # 0x00 # r"
    | r where "h = 0x4d # 0x4d # 0x00 # 0x2a # r"
    by (auto simp: prefix_def)
  then show ?thesis
    by cases (simp_all add: classify_header_def MAGIC_BYTES_def)
qed

lemma classify_gif:
  assumes "prefix [0x47, 0x49, 0x46, 0x38] h"
  shows "classify_header h = Some ''gif''"
proof -
  from assms obtain r where "h = 0x47 # 0x49 # 0x46 # 0x38 # r" by (auto simp: prefix_def)
  then show ?thesis by (simp add: classify_header_def MAGIC_BYTES_def)
qed

lemma classify_bmp:
  assumes "prefix [0x42, 0x4d] h"
  shows "classify_header h = Some ''bmp''"
proof -
  from assms obtain r where "h = 0x42 # 0x4d # r" by (auto simp: prefix_def)
  then show ?thesis by (simp add: classify_header_def MAGIC_BYTES_def)
qed

text \<open>No signature of the table matches exactly when none of its eight byte strings starts
  the header.\<close>

lemma first_magic_table:
  "first_magic MAGIC_BYTES h = None \<longleftrightarrow>
     \<not> prefix [0x00, 0x00, 0x00, 0x0c, 0x4a, 0x58, 0x4c, 0x20, 0x0d, 0x0a, 0x87, 0x0a] h
     \<and> \<not> prefix [0x89, 0x50, 0x4e, 0x47, 0x0d, 0x0a, 0x1a, 0x0a] h
     \<and> \<not> prefix [0xff, 0xd8, 0xff] h \<and> \<not> prefix [0xff, 0x0a] h
     \<and> \<not> prefix [0x49, 0x49, 0x2a, 0x00] h \<and> \<not> prefix [0x4d, 0x4d, 0x00, 0x2a] h
     \<and> \<not> prefix [0x47, 0x49, 0x46, 0x38] h \<and> \<not> prefix [0x42, 0x4d] h"
  unfolding first_magic_None_iff by (simp add: MAGIC_BYTES_def)

text \<open>Past the signature table, the RIFF brands and the Matroska signature, the two
  container rules decide.\<close>

lemma classify_containers:
  assumes "first_magic MAGIC_BYTES h = None" and "\<not> RIFF_branded h"
    and "\<not> prefix [0x1a, 0x45, 0xdf, 0xa3] h"
  shows "classify_header h =
     (if 12 \<le> length h \<and> slice 4 8 h = bytes_of ''ftyp''
      then (let brand = decode_ascii_ignore_lower (slice 8 12 h) in
            if brand \<in> set [bytes_of ''heic'', bytes_of ''heix'',
                             bytes_of ''mif1'', bytes_of ''msf1'']
            then Some ''heic''
            else if brand \<in> set [bytes_of ''avif'', bytes_of ''avis'']
            then Some ''avif''
            else Some ''mp4'')
      else if 8 \<le> length h
         \<and> slice 4 8 h \<in> set [bytes_of ''moov'', bytes_of ''mdat'', bytes_of ''wide'',
                                    bytes_of ''skip'', bytes_of ''free'', bytes_of ''pnot'']
      then Some ''mp4''
      else None)"
proof -
  have a: "\<not> (prefix [0x52, 0x49, 0x46, 0x46] h \<and> 12 \<le> length h
             \<and> slice 8 12 h \<in> set [bytes_of ''WEBP'', bytes_of ''WEBX''])"
    using assms(2) by (auto simp: RIFF_branded_def bytes_of_def)
  have b: "\<not> (prefix [0x52, 0x49, 0x46, 0x46] h \<and> 12 \<le> length h
             \<and> slice 8 12 h = bytes_of ''AVI '')"
    using assms(2) by (auto simp: RIFF_branded_def bytes_of_def)
  show ?thesis unfolding classify_header_def
    by (simp only: assms(1) option.case if_not_P[OF a] if_not_P[OF b] if_not_P[OF assms(3)])
qed

lemma atom_length:
  assumes "slice 4 8 h \<in> set [bytes_of ''moov'', bytes_of ''mdat'', bytes_of ''wide'',
                                    bytes_of ''skip'', bytes_of ''free'', bytes_of ''pnot'']"
  shows "8 \<le> length h" and "slice 4 8 h \<noteq> bytes_of ''ftyp''"
proof -
  have "length (slice 4 8 h) = 4" using assms by (auto simp: bytes_of_def)
  then show "8 \<le> length h" by (auto simp: slice_def)
  show "slice 4 8 h \<noteq> bytes_of ''ftyp''" using assms by (auto simp: bytes_of_def)
qed

lemma detect_format_readable:
  "fs p = Some (Readable bs) \<Longrightarrow> detect_format fs p = classify_header (take 32 bs)"
  by (simp add: detect_format_def read_prefix_def)

lemma detect_format_unopenable:
  "fs p = None \<or> fs p = Some (Unreadable n) \<Longrightarrow> detect_format fs p = None"
  by (auto simp: detect_format_def read_prefix_def)

lemma classify_empty: "classify_header [] = None"
  by (simp add: classify_header_def MAGIC_BYTES_def slice_def bytes_of_def)

text \<open>
  Claim C3, as amended. \<open>detect_format\<close> is a total function of the file's first 32
  bytes and returns a label or nothing; it applies its rules in order. A missing, unreadable
  or empty file has no classification. The PNG, JPEG and both JPEG XL signatures give
  \<open>png\<close>, \<open>jpg\<close> and \<open>jxl\<close>, the two TIFF signatures give \<open>tiff\<close>, the GIF and BMP
  signatures give \<open>gif\<close> and \<open>bmp\<close>; a RIFF container gives \<open>webp\<close> for the brands WEBP
  and WEBX and \<open>avi\<close> for the brand \<open>AVI\<close>; the Matroska signature gives \<open>mkv\<close>. The
  \<open>ftyp\<close> and QuickTime rules apply only to a header that starts with none of the eight
  signatures of \<open>MAGIC_BYTES\<close>, is no branded RIFF container and does not start with the
  Matroska signature: with \<open>ftyp\<close> at bytes 4 to 8 and at least 12
  bytes, the brand, compared without regard to letter case, gives \<open>heic\<close>, \<open>avif\<close> or, for
  any other brand, \<open>mp4\<close>; a QuickTime atom at bytes 4 to 8 gives \<open>mp4\<close>; anything else has
  no classification.
\<close>

theorem detect_format_ordered_rules:
  "(fs p = None \<or> fs p = Some (Unreadable n) \<or> fs p = Some (Readable [])
      \<longrightarrow> detect_format fs p = None) \<and>
   (fs p = Some (Readable bs) \<and> h = take 32 bs \<longrightarrow>
     (prefix [0x89, 0x50, 0x4e, 0x47, 0x0d, 0x0a, 0x1a, 0x0a] h
        \<longrightarrow> detect_format fs p = Some ''png'') \<and>
     (prefix [0xff, 0xd8, 0xff] h \<longrightarrow> detect_format fs p = Some ''jpg'') \<and>
     (prefix [0xff, 0x0a] h
        \<or> prefix [0x00, 0x00, 0x00, 0x0c, 0x4a, 0x58, 0x4c, 0x20, 0x0d, 0x0a, 0x87, 0x0a] h
        \<longrightarrow> detect_format fs p = Some ''jxl'') \<and>
     (prefix (bytes_of ''RIFF'') h
        \<and> (slice 8 12 h = bytes_of ''WEBP'' \<or> slice 8 12 h = bytes_of ''WEBX'')
        \<longrightarrow> detect_format fs p = Some ''webp'') \<and>
     (prefix (bytes_of ''RIFF'') h \<and> slice 8 12 h = bytes_of ''AVI ''
        \<longrightarrow> detect_format fs p = Some ''avi'') \<and>
     (prefix [0x49, 0x49, 0x2a, 0x00] h \<or> prefix [0x4d, 0x4d, 0x00, 0x2a] h
        \<longrightarrow> detect_format fs p = Some ''tiff'') \<and>
     (prefix [0x47, 0x49, 0x46, 0x38] h \<longrightarrow> detect_format fs p = Some ''gif'') \<and>
     (prefix [0x42, 0x4d] h \<longrightarrow> detect_format fs p = Some ''bmp'') \<and>
     (prefix [0x1a, 0x45, 0xdf, 0xa3] h \<longrightarrow> detect_format fs p = Some ''mkv'') \<and>
     (\<not> prefix [0x00, 0x00, 0x00, 0x0c, 0x4a, 0x58, 0x4c, 0x20, 0x0d, 0x0a, 0x87, 0x0a] h
        \<and> \<not> prefix [0x89, 0x50, 0x4e, 0x47, 0x0d, 0x0a, 0x1a, 0x0a] h
        \<and> \<not> prefix [0xff, 0xd8, 0xff] h \<and> \<not> prefix [0xff, 0x0a] h
        \<and> \<not> prefix [0x49, 0x49, 0x2a, 0x00] h \<and> \<not> prefix [0x4d, 0x4d, 0x00, 0x2a] h
        \<and> \<not> prefix [0x47, 0x49, 0x46, 0x38] h \<and> \<not> prefix [0x42, 0x4d] h
        \<and> \<not> RIFF_branded h \<and> \<not> prefix [0x1a, 0x45, 0xdf, 0xa3] h \<longrightarrow>
        (12 \<le> length h \<and> slice 4 8 h = bytes_of ''ftyp'' \<longrightarrow>
           (decode_ascii_ignore_lower (slice 8 12 h)
              \<in> set [bytes_of ''heic'', bytes_of ''heix'', bytes_of ''mif1'', bytes_of ''msf1'']
              \<longrightarrow> detect_format fs p = Some ''heic'') \<and>
           (decode_ascii_ignore_lower (slice 8 12 h)
              \<in> set [bytes_of ''avif'', bytes_of ''avis'']
              \<longrightarrow> detect_format fs p = Some ''avif'') \<and>
           (decode_ascii_ignore_lower (slice 8 12 h)
              \<notin> set [bytes_of ''heic'', bytes_of ''heix'', bytes_of ''mif1'', bytes_of ''msf1'',
                       bytes_of ''avif'', bytes_of ''avis'']
              \<longrightarrow> detect_format fs p = Some ''mp4'')) \<and>
        (slice 4 8 h \<in> set [bytes_of ''moov'', bytes_of ''mdat'', bytes_of ''wide'',
                              bytes_of ''skip'', bytes_of ''free'', bytes_of ''pnot'']
           \<longrightarrow> detect_format fs p = Some ''mp4'') \<and>
        (\<not> (12 \<le> length h \<and> slice 4 8 h = bytes_of ''ftyp'')
           \<and> slice 4 8 h \<notin> set [bytes_of ''moov'', bytes_of ''mdat'', bytes_of ''wide'',
                                  bytes_of ''skip'', bytes_of ''free'', bytes_of ''pnot'']
           \<longrightarrow> detect_format fs p = None)))"
proof (intro conjI impI)
  assume "fs p = None \<or> fs p = Some (Unreadable n) \<or> fs p = Some (Readable [])"
  then show "detect_format fs p = None"
    using detect_format_unopenable[of fs p n] detect_format_readable[of fs p "[]"] classify_empty
    by auto
next
  assume "fs p = Some (Readable bs) \<and> h = take 32 bs"
  then have d: "detect_format fs p = classify_header h"
    by (simp add: detect_format_readable)
  {
    assume "prefix [0x89, 0x50, 0x4e, 0x47, 0x0d, 0x0a, 0x1a, 0x0a] h"
    then show "detect_format fs p = Some ''png''" by (simp only: d classify_png)
  next
    assume "prefix [0xff, 0xd8, 0xff] h"
    then show "detect_format fs p = Some ''jpg''" by (simp only: d classify_jpg)
  next
    assume "prefix [0xff, 0x0a] h
        \<or> prefix [0x00, 0x00, 0x00, 0x0c, 0x4a, 0x58, 0x4c, 0x20, 0x0d, 0x0a, 0x87, 0x0a] h"
    then show "detect_format fs p = Some ''jxl''"
      using classify_jxl_codestream[of h] classify_jxl_container[of h] d by metis
  next
    assume "prefix (bytes_of ''RIFF'') h
        \<and> (slice 8 12 h = bytes_of ''WEBP'' \<or> slice 8 12 h = bytes_of ''WEBX'')"
    then show "detect_format fs p = Some ''webp''"
      using classify_webp[of h] d by metis
  next
    assume "prefix (bytes_of ''RIFF'') h \<and> slice 8 12 h = bytes_of ''AVI ''"
    then show "detect_format fs p = Some ''avi''"
      using classify_avi[of h] d by metis
  next
    assume "prefix [0x49, 0x49, 0x2a, 0x00] h \<or> prefix [0x4d, 0x4d, 0x00, 0x2a] h"
    then show "detect_format fs p = Some ''tiff''" by (simp only: d classify_tiff)
  next
    assume "prefix [0x47, 0x49, 0x46, 0x38] h"
    then show "detect_format fs p = Some ''gif''" by (simp only: d classify_gif)
  next
    assume "prefix [0x42, 0x4d] h"
    then show "detect_format fs p = Some ''bmp''" by (simp only: d classify_bmp)
  next
    assume "prefix [0x1a, 0x45, 0xdf, 0xa3] h"
    then show "detect_format fs p = Some ''mkv''" by (simp only: d classify_mkv)
  next
    assume "\<not> prefix [0x00, 0x00, 0x00, 0x0c, 0x4a, 0x58, 0x4c, 0x20, 0x0d, 0x0a, 0x87, 0x0a] h
        \<and> \<not> prefix [0x89, 0x50, 0x4e, 0x47, 0x0d, 0x0a, 0x1a, 0x0a] h
        \<and> \<not> prefix [0xff, 0xd8, 0xff] h \<and> \<not> prefix [0xff, 0x0a] h
        \<and> \<not> prefix [0x49, 0x49, 0x2a, 0x00] h \<and> \<not> prefix [0x4d, 0x4d, 0x00, 0x2a] h
        \<and> \<not> prefix [0x47, 0x49, 0x46, 0x38] h \<and> \<not> prefix [0x42, 0x4d] h
        \<and> \<not> RIFF_branded h \<and> \<not> prefix [0x1a, 0x45, 0xdf, 0xa3] h"
    then have "first_magic MAGIC_BYTES h = None" and "\<not> RIFF_branded h"
      and "\<not> prefix [0x1a, 0x45, 0xdf, 0xa3] h"
      unfolding first_magic_table by blast+
    then have c: "detect_format fs p =
     (if 12 \<le> length h \<and> slice 4 8 h = bytes_of ''ftyp''
      then (let brand = decode_ascii_ignore_lower (slice 8 12 h) in
            if brand \<in> set [bytes_of ''heic'', bytes_of ''heix'',
                             bytes_of ''mif1'', bytes_of ''msf1'']
            then Some ''heic''
            else if brand \<in> set [bytes_of ''avif'', bytes_of ''avis'']
            then Some ''avif''
            else Some ''mp4'')
      else if 8 \<le> length h
         \<and> slice 4 8 h \<in> set [bytes_of ''moov'', bytes_of ''mdat'', bytes_of ''wide'',
                                    bytes_of ''skip'', bytes_of ''free'', bytes_of ''pnot'']
      then Some ''mp4''
      else None)"
      using classify_containers[of h] d by simp
    {
      assume f: "12 \<le> length h \<and> slice 4 8 h = bytes_of ''ftyp''"
      {
        assume "decode_ascii_ignore_lower (slice 8 12 h)
              \<in> set [bytes_of ''heic'', bytes_of ''heix'', bytes_of ''mif1'', bytes_of ''msf1'']"
        then show "detect_format fs p = Some ''heic''"
          unfolding c by (simp only: if_P[OF f] Let_def if_P)
      next
        have ne: "\<And>x. x \<in> set [bytes_of ''avif'', bytes_of ''avis''] \<Longrightarrow>
              x \<notin> set [bytes_of ''heic'', bytes_of ''heix'', bytes_of ''mif1'', bytes_of ''msf1'']"
          by (auto simp: bytes_of_def)
        assume a: "decode_ascii_ignore_lower (slice 8 12 h)
              \<in> set [bytes_of ''avif'', bytes_of ''avis'']"
        show "detect_format fs p = Some ''avif''"
          unfolding c by (simp only: if_P[OF f] Let_def if_P[OF a] if_not_P[OF ne[OF a]])
      next
        assume "decode_ascii_ignore_lower (slice 8 12 h)
              \<notin> set [bytes_of ''heic'', bytes_of ''heix'', bytes_of ''mif1'', bytes_of ''msf1'',
                       bytes_of ''avif'', bytes_of ''avis'']"
        then have n1: "decode_ascii_ignore_lower (slice 8 12 h)
              \<notin> set [bytes_of ''heic'', bytes_of ''heix'', bytes_of ''mif1'', bytes_of ''msf1'']"
          and n2: "decode_ascii_ignore_lower (slice 8 12 h)
              \<notin> set [bytes_of ''avif'', bytes_of ''avis'']"
          by auto
        show "detect_format fs p = Some ''mp4''"
          unfolding c by (simp only: if_P[OF f] Let_def if_not_P[OF n1] if_not_P[OF n2])
      }
    next
      assume q: "slice 4 8 h \<in> set [bytes_of ''moov'', bytes_of ''mdat'', bytes_of ''wide'',
                              bytes_of ''skip'', bytes_of ''free'', bytes_of ''pnot'']"
      have nf: "\<not> (12 \<le> length h \<and> slice 4 8 h = bytes_of ''ftyp'')"
        using atom_length(2)[OF q] by simp
      have q': "8 \<le> length h
         \<and> slice 4 8 h \<in> set [bytes_of ''moov'', bytes_of ''mdat'', bytes_of ''wide'',
                                    bytes_of ''skip'', bytes_of ''free'', bytes_of ''pnot'']"
        using atom_length(1)[OF q] q by simp
      show "detect_format fs p = Some ''mp4''"
        unfolding c by (simp only: if_not_P[OF nf] if_P[OF q'])
    next
      assume "\<not> (12 \<le> length h \<and> slice 4 8 h = bytes_of ''ftyp'')
           \<and> slice 4 8 h \<notin> set [bytes_of ''moov'', bytes_of ''mdat'', bytes_of ''wide'',
                                  bytes_of ''skip'', bytes_of ''free'', bytes_of ''pnot'']"
      then have nf: "\<not> (12 \<le> length h \<and> slice 4 8 h = bytes_of ''ftyp'')"
        and nq: "\<not> (8 \<le> length h
         \<and> slice 4 8 h \<in> set [bytes_of ''moov'', bytes_of ''mdat'', bytes_of ''wide'',
                                    bytes_of ''skip'', bytes_of ''free'', bytes_of ''pnot''])"
        by blast+
      show "detect_format fs p = None"
        unfolding c by (simp only: if_not_P[OF nf] if_not_P[OF nq])
    }
  }
qed

text \<open>The rules of C3 at the files of the test suite.\<close>

theorem detect_format_ordered_rules_witness:
  "detect_format (single_file ''a.bin'' []) ''missing.bin'' = None \<and>
   detect_format (single_file ''a.bin'' []) ''a.bin'' = None \<and>
   detect_format (single_file ''a.bin''
      ([0x89, 0x50, 0x4e, 0x47, 0x0d, 0x0a, 0x1a, 0x0a] @ replicate 24 0)) ''a.bin'' = Some ''png'' \<and>
   detect_format (single_file ''a.bin'' ([0xff, 0xd8, 0xff] @ replicate 29 0)) ''a.bin''
      = Some ''jpg'' \<and>
   detect_format (single_file ''a.bin'' ([0xff, 0x0a] @ replicate 30 0)) ''a.bin'' = Some ''jxl'' \<and>
   detect_format (single_file ''a.bin'' (bytes_of ''RIFF'' @ [0, 0, 0, 0] @ bytes_of ''WEBP''))
      ''a.bin'' = Some ''webp'' \<and>
   detect_format (single_file ''a.bin'' (bytes_of ''RIFF'' @ [0, 0, 0, 0] @ bytes_of ''AVI ''))
      ''a.bin'' = Some ''avi'' \<and>
   detect_format (single_file ''a.bin'' ([0, 0, 0, 0] @ bytes_of ''ftypheic'')) ''a.bin''
      = Some ''heic'' \<and>
   detect_format (single_file ''a.bin'' ([0, 0, 0, 0] @ bytes_of ''ftypavif'')) ''a.bin''
      = Some ''avif'' \<and>
   detect_format (single_file ''a.bin'' ([0, 0, 0, 0] @ bytes_of ''ftypmp42'')) ''a.bin''
      = Some ''mp4'' \<and>
   detect_format (single_file ''a.bin'' ([0, 0, 0, 0] @ bytes_of ''moov'')) ''a.bin''
      = Some ''mp4'' \<and>
   detect_format (single_file ''a.bin'' ([0x49, 0x49, 0x2a, 0x00] @ replicate 28 0)) ''a.bin''
      = Some ''tiff'' \<and>
   detect_format (single_file ''a.bin'' ([0x4d, 0x4d, 0x00, 0x2a] @ replicate 28 0)) ''a.bin''
      = Some ''tiff'' \<and>
   detect_format (single_file ''a.bin'' ([0x47, 0x49, 0x46, 0x38] @ replicate 28 0)) ''a.bin''
      = Some ''gif'' \<and>
   detect_format (single_file ''a.bin'' ([0x42, 0x4d] @ replicate 30 0)) ''a.bin''
      = Some ''bmp'' \<and>
   detect_format (single_file ''a.bin'' ([0x1a, 0x45, 0xdf, 0xa3] @ replicate 28 0)) ''a.bin''
      = Some ''mkv'' \<and>
   detect_format (single_file ''a.bin'' (bytes_of ''UNKNOWN FORMAT DATA'')) ''a.bin'' = None"
proof -
  note defs = single_file_def bytes_of_def slice_def MAGIC_BYTES_def RIFF_branded_def
    decode_ascii_ignore_lower_def ascii_lower_def
  note T = detect_format_ordered_rules
  have "detect_format (single_file ''a.bin'' []) ''missing.bin'' = None"
    using T[where fs = "single_file ''a.bin'' []" and p = "''missing.bin''"]
    by (simp add: defs)
  moreover have "detect_format (single_file ''a.bin'' []) ''a.bin'' = None"
    using T[where fs = "single_file ''a.bin'' []" and p = "''a.bin''"]
    by (simp add: defs)
  moreover have "detect_format (single_file ''a.bin''
      ([0x89, 0x50, 0x4e, 0x47, 0x0d, 0x0a, 0x1a, 0x0a] @ replicate 24 0)) ''a.bin'' = Some ''png''"
    using T[where fs = "single_file ''a.bin''
      ([0x89, 0x50, 0x4e, 0x47, 0x0d, 0x0a, 0x1a, 0x0a] @ replicate 24 0)" and p = "''a.bin''"
      and bs = "[0x89, 0x50, 0x4e, 0x47, 0x0d, 0x0a, 0x1a, 0x0a] @ replicate 24 0"
      and h = "take 32 ([0x89, 0x50, 0x4e, 0x47, 0x0d, 0x0a, 0x1a, 0x0a] @ replicate 24 0)"]
    by (simp add: defs)
  moreover have "detect_format (single_file ''a.bin'' ([0xff, 0xd8, 0xff] @ replicate 29 0)) ''a.bin''
      = Some ''jpg''"
    using T[where fs = "single_file ''a.bin'' ([0xff, 0xd8, 0xff] @ replicate 29 0)"
      and p = "''a.bin''" and bs = "[0xff, 0xd8, 0xff] @ replicate 29 0"
      and h = "take 32 ([0xff, 0xd8, 0xff] @ replicate 29 0)"]
    by (simp add: defs)
  moreover have "detect_format (single_file ''a.bin'' ([0xff, 0x0a] @ replicate 30 0)) ''a.bin''
      = Some ''jxl''"
    using T[where fs = "single_file ''a.bin'' ([0xff, 0x0a] @ replicate 30 0)"
      and p = "''a.bin''" and bs = "[0xff, 0x0a] @ replicate 30 0"
      and h = "take 32 ([0xff, 0x0a] @ replicate 30 0)"]
    by (simp add: defs)
  moreover have "detect_format (single_file ''a.bin''
      (bytes_of ''RIFF'' @ [0, 0, 0, 0] @ bytes_of ''WEBP'')) ''a.bin'' = Some ''webp''"
    using T[where fs = "single_file ''a.bin'' (bytes_of ''RIFF'' @ [0, 0, 0, 0] @ bytes_of ''WEBP'')"
      and p = "''a.bin''" and bs = "bytes_of ''RIFF'' @ [0, 0, 0, 0] @ bytes_of ''WEBP''"
      and h = "take 32 (bytes_of ''RIFF'' @ [0, 0, 0, 0] @ bytes_of ''WEBP'')"]
    by (simp add: defs)
  moreover have "detect_format (single_file ''a.bin''
      (bytes_of ''RIFF'' @ [0, 0, 0, 0] @ bytes_of ''AVI '')) ''a.bin'' = Some ''avi''"
    using T[where fs = "single_file ''a.bin'' (bytes_of ''RIFF'' @ [0, 0, 0, 0] @ bytes_of ''AVI '')"
      and p = "''a.bin''" and bs = "bytes_of ''RIFF'' @ [0, 0, 0, 0] @ bytes_of ''AVI ''"
      and h = "take 32 (bytes_of ''RIFF'' @ [0, 0, 0, 0] @ bytes_of ''AVI '')"]
    by (simp add: defs)
  moreover have "detect_format (single_file ''a.bin'' ([0, 0, 0, 0] @ bytes_of ''ftypheic''))
      ''a.bin'' = Some ''heic''"
    using T[where fs = "single_file ''a.bin'' ([0, 0, 0, 0] @ bytes_of ''ftypheic'')"
      and p = "''a.bin''" and bs = "[0, 0, 0, 0] @ bytes_of ''ftypheic''"
      and h = "take 32 ([0, 0, 0, 0] @ bytes_of ''ftypheic'')"]
    by (simp add: defs)
  moreover have "detect_format (single_file ''a.bin'' ([0, 0, 0, 0] @ bytes_of ''ftypavif''))
      ''a.bin'' = Some ''avif''"
    using T[where fs = "single_file ''a.bin'' ([0, 0, 0, 0] @ bytes_of ''ftypavif'')"
      and p = "''a.bin''" and bs = "[0, 0, 0, 0] @ bytes_of ''ftypavif''"
      and h = "take 32 ([0, 0, 0, 0] @ bytes_of ''ftypavif'')"]
    by (simp add: defs)
  moreover have "detect_format (single_file ''a.bin'' ([0, 0, 0, 0] @ bytes_of ''ftypmp42''))
      ''a.bin'' = Some ''mp4''"
    using T[where fs = "single_file ''a.bin'' ([0, 0, 0, 0] @ bytes_of ''ftypmp42'')"
      and p = "''a.bin''" and bs = "[0, 0, 0, 0] @ bytes_of ''ftypmp42''"
      and h = "take 32 ([0, 0, 0, 0] @ bytes_of ''ftypmp42'')"]
    by (simp add: defs)
  moreover have "detect_format (single_file ''a.bin'' ([0, 0, 0, 0] @ bytes_of ''moov''))
      ''a.bin'' = Some ''mp4''"
    using T[where fs = "single_file ''a.bin'' ([0, 0, 0, 0] @ bytes_of ''moov'')"
      and p = "''a.bin''" and bs = "[0, 0, 0, 0] @ bytes_of ''moov''"
      and h = "take 32 ([0, 0, 0, 0] @ bytes_of ''moov'')"]
    by (simp add: defs)
  moreover have "detect_format (single_file ''a.bin'' ([0x49, 0x49, 0x2a, 0x00] @ replicate 28 0)) ''a.bin''
      = Some ''tiff''"
    using T[where fs = "single_file ''a.bin'' ([0x49, 0x49, 0x2a, 0x00] @ replicate 28 0)"
      and p = "''a.bin''" and bs = "[0x49, 0x49, 0x2a, 0x00] @ replicate 28 0"
      and h = "take 32 ([0x49, 0x49, 0x2a, 0x00] @ replicate 28 0)"]
    by (simp add: defs)
  moreover have "detect_format (single_file ''a.bin'' ([0x4d, 0x4d, 0x00, 0x2a] @ replicate 28 0)) ''a.bin''
      = Some ''tiff''"
    using T[where fs = "single_file ''a.bin'' ([0x4d, 0x4d, 0x00, 0x2a] @ replicate 28 0)"
      and p = "''a.bin''" and bs = "[0x4d, 0x4d, 0x00, 0x2a] @ replicate 28 0"
      and h = "take 32 ([0x4d, 0x4d, 0x00, 0x2a] @ replicate 28 0)"]
    by (simp add: defs)
  moreover have "detect_format (single_file ''a.bin'' ([0x47, 0x49, 0x46, 0x38] @ replicate 28 0)) ''a.bin''
      = Some ''gif''"
    using T[where fs = "single_file ''a.bin'' ([0x47, 0x49, 0x46, 0x38] @ replicate 28 0)"
      and p = "''a.bin''" and bs = "[0x47, 0x49, 0x46, 0x38] @ replicate 28 0"
      and h = "take 32 ([0x47, 0x49, 0x46, 0x38] @ replicate 28 0)"]
    by (simp add: defs)
  moreover have "detect_format (single_file ''a.bin'' ([0x42, 0x4d] @ replicate 30 0)) ''a.bin''
      = Some ''bmp''"
    using T[where fs = "single_file ''a.bin'' ([0x42, 0x4d] @ replicate 30 0)"
      and p = "''a.bin''" and bs = "[0x42, 0x4d] @ replicate 30 0"
      and h = "take 32 ([0x42, 0x4d] @ replicate 30 0)"]
    by (simp add: defs)
  moreover have "detect_format (single_file ''a.bin'' ([0x1a, 0x45, 0xdf, 0xa3] @ replicate 28 0)) ''a.bin''
      = Some ''mkv''"
    using T[where fs = "single_file ''a.bin'' ([0x1a, 0x45, 0xdf, 0xa3] @ replicate 28 0)"
      and p = "''a.bin''" and bs = "[0x1a, 0x45, 0xdf, 0xa3] @ replicate 28 0"
      and h = "take 32 ([0x1a, 0x45, 0xdf, 0xa3] @ replicate 28 0)"]
    by (simp add: defs)
  moreover have "detect_format (single_file ''a.bin'' (bytes_of ''UNKNOWN FORMAT DATA''))
      ''a.bin'' = None"
    using T[where fs = "single_file ''a.bin'' (bytes_of ''UNKNOWN FORMAT DATA'')"
      and p = "''a.bin''" and bs = "bytes_of ''UNKNOWN FORMAT DATA''"
      and h = "take 32 (bytes_of ''UNKNOWN FORMAT DATA'')"]
    by (simp add: defs)
  ultimately show ?thesis by blast
qed

text \<open>
  Claim C3 as it was stated fails: a header with \<open>ftyp\<close> and the brand \<open>heic\<close> behind the
  Matroska signature is \<open>mkv\<close>, a QuickTime atom behind the BMP signature is \<open>bmp\<close>, and
  the brand \<open>HEIC\<close> in capitals, which is none of the six listed brands, is \<open>heic\<close> and not
  \<open>mp4\<close>.
\<close>

theorem detect_format_claimed_rules_counterexample:
  "slice 4 8 [0x1a, 0x45, 0xdf, 0xa3, 0x66, 0x74, 0x79, 0x70, 0x68, 0x65, 0x69, 0x63]
     = bytes_of ''ftyp'' \<and>
   slice 8 12 [0x1a, 0x45, 0xdf, 0xa3, 0x66, 0x74, 0x79, 0x70, 0x68, 0x65, 0x69, 0x63]
     = bytes_of ''heic'' \<and>
   detect_format
     (single_file ''a.bin'' [0x1a, 0x45, 0xdf, 0xa3, 0x66, 0x74, 0x79, 0x70, 0x68, 0x65, 0x69, 0x63])
     ''a.bin'' = Some ''mkv'' \<and>
   slice 4 8 [0x42, 0x4d, 0x00, 0x00, 0x6d, 0x6f, 0x6f, 0x76] = bytes_of ''moov'' \<and>
   detect_format (single_file ''a.bin'' [0x42, 0x4d, 0x00, 0x00, 0x6d, 0x6f, 0x6f, 0x76]) ''a.bin''
     = Some ''bmp'' \<and>
   slice 4 8 [0x00, 0x00, 0x00, 0x18, 0x66, 0x74, 0x79, 0x70, 0x48, 0x45, 0x49, 0x43]
     = bytes_of ''ftyp'' \<and>
   slice 8 12 [0x00, 0x00, 0x00, 0x18, 0x66, 0x74, 0x79, 0x70, 0x48, 0x45, 0x49, 0x43]
     \<notin> set [bytes_of ''heic'', bytes_of ''heix'', bytes_of ''mif1'', bytes_of ''msf1'',
              bytes_of ''avif'', bytes_of ''avis''] \<and>
   detect_format
     (single_file ''a.bin'' [0x00, 0x00, 0x00, 0x18, 0x66, 0x74, 0x79, 0x70, 0x48, 0x45, 0x49, 0x43])
     ''a.bin'' = Some ''heic''"
  by (simp add: detect_format_def read_prefix_def classify_header_def single_file_def
      bytes_of_def slice_def MAGIC_BYTES_def decode_ascii_ignore_lower_def ascii_lower_def)

text \<open>
  Claim C10. Every readable file whose first four bytes are 1A 45 DF A3 is classified as
  \<open>mkv\<close>: no signature of \<open>MAGIC_BYTES\<close> and no RIFF rule comes before it.
\<close>

theorem detect_format_matroska:
  assumes "fs p = Some (Readable bs)" and "prefix [0x1a, 0x45, 0xdf, 0xa3] bs"
  shows "detect_format fs p = Some ''mkv''"
proof -
  from assms(2) obtain r where bs: "bs = 0x1a # 0x45 # 0xdf # 0xa3 # r"
    by (auto simp: prefix_def)
  have "prefix [0x1a, 0x45, 0xdf, 0xa3] (take 32 bs)"
    unfolding bs by simp
  then have "classify_header (take 32 bs) = Some ''mkv''"
    by (rule classify_mkv)
  then show ?thesis
    using assms(1) by (simp add: detect_format_readable)
qed

text \<open>The Matroska file of the test suite.\<close>

theorem detect_format_matroska_witness:
  "detect_format (single_file ''test.mkv'' ([0x1a, 0x45, 0xdf, 0xa3] @ replicate 28 0)) ''test.mkv''
     = Some ''mkv''"
  using detect_format_matroska[of "single_file ''test.mkv'' ([0x1a, 0x45, 0xdf, 0xa3] @ replicate 28 0)"
      "''test.mkv''" "[0x1a, 0x45, 0xdf, 0xa3] @ replicate 28 0"]
  by (simp add: single_file_def)

section \<open>Properties of the image output validator\<close>

text \<open>
  Claim C8. \<open>validate_output\<close> is true exactly when the file exists, has a non-zero size and
  sniffs to the expected label, that is, when it is a readable non-empty file whose header
  is classified as expected. It is false for a missing file, for an empty file and when the
  sniffed format differs. It is a function of the file system alone and returns nothing
  but the truth value.
\<close>

theorem validate_output_iff:
  "validate_output fs p fmt
     = (path_exists fs p \<and> getsize fs p \<noteq> Inr 0 \<and> detect_format fs p = Some fmt) \<and>
   validate_output fs p fmt
     = (\<exists>bs. fs p = Some (Readable bs) \<and> bs \<noteq> [] \<and> classify_header (take 32 bs) = Some fmt) \<and>
   (fs p = None \<longrightarrow> \<not> validate_output fs p fmt) \<and>
   (fs p = Some (Readable []) \<longrightarrow> \<not> validate_output fs p fmt) \<and>
   (detect_format fs p \<noteq> Some fmt \<longrightarrow> \<not> validate_output fs p fmt)"
proof -
  have a: "validate_output fs p fmt
     = (path_exists fs p \<and> getsize fs p \<noteq> Inr 0 \<and> detect_format fs p = Some fmt)"
    by (auto simp: validate_output_def path_exists_def getsize_def split: option.splits)
  have b: "validate_output fs p fmt
     = (\<exists>bs. fs p = Some (Readable bs) \<and> bs \<noteq> [] \<and> classify_header (take 32 bs) = Some fmt)"
    by (auto simp: validate_output_def detect_format_def read_prefix_def
        split: option.splits file_node.splits)
  show ?thesis using a b by auto
qed

text \<open>The four validator cases of the test suite.\<close>

theorem validate_output_iff_witness:
  "validate_output (single_file ''output.png''
      ([0x89, 0x50, 0x4e, 0x47, 0x0d, 0x0a, 0x1a, 0x0a] @ replicate 24 0)) ''output.png'' ''png'' \<and>
   \<not> validate_output (single_file ''output.png''
      ([0x89, 0x50, 0x4e, 0x47, 0x0d, 0x0a, 0x1a, 0x0a] @ replicate 24 0)) ''output.png'' ''jxl'' \<and>
   \<not> validate_output (single_file ''output.png'' []) ''does_not_exist'' ''png'' \<and>
   \<not> validate_output (single_file ''empty'' []) ''empty'' ''png''"
proof -
  let ?png = "[0x89, 0x50, 0x4e, 0x47, 0x0d, 0x0a, 0x1a, 0x0a] @ replicate 24 (0::byte)"
  note V = validate_output_iff[THEN conjunct2, THEN conjunct1]
  have c: "classify_header (take 32 ?png) = Some ''png''"
    by (rule classify_png) simp
  have "validate_output (single_file ''output.png'' ?png) ''output.png'' ''png''"
    unfolding V using c by (simp add: single_file_def)
  moreover have "\<not> validate_output (single_file ''output.png'' ?png) ''output.png'' ''jxl''"
    unfolding V using c by (simp add: single_file_def)
  moreover have "\<not> validate_output (single_file ''output.png'' []) ''does_not_exist'' ''png''"
    unfolding V by (simp add: single_file_def)
  moreover have "\<not> validate_output (single_file ''empty'' []) ''empty'' ''png''"
    unfolding V by (simp add: single_file_def)
  ultimately show ?thesis by blast
qed

section \<open>Properties of the image transcode executor\<close>

lemma subprocess_run_log:
  "subprocess_run env c w = (oc, w1) \<Longrightarrow> tool_log w1 = tool_log w @ [c]"
  by (auto simp: subprocess_run_def Let_def split: prod.splits)

lemma subprocess_run_frame:
  "subprocess_run env c w = (oc, w1) \<Longrightarrow> net_log w1 = net_log w \<and> calls w1 = calls w"
  by (auto simp: subprocess_run_def Let_def split: prod.splits)

lemma subprocess_run_files:
  "subprocess_run env c w = (oc, w1) \<Longrightarrow> tool_target c \<noteq> Some p \<Longrightarrow> files w1 p = files w p"
  by (auto simp: subprocess_run_def Let_def apply_change_def
      split: prod.splits option.splits file_change.splits if_splits)

lemma copy_metadata_returns:
  assumes "subprocess_run env (Exiftool i out) w = (oc, w1)" and "oc \<noteq> OtherFailure"
  shows "\<exists>b. copy_metadata env i out w = (Inr b, w1)"
  using assms by (cases oc) (auto simp: copy_metadata_def)

lemma transcode_with_magick_success:
  assumes "getsize (files w) i = Inr ib"
    and "subprocess_run env (Magick i out d) w = (Exited 0 so se, w1)"
    and "subprocess_run env (Exiftool i out) w1 = (oc, w2)"
    and "oc \<noteq> OtherFailure"
  shows "\<exists>r. transcode_with_magick env i out d w = (Inr r, w2) \<and> success r
          \<and> tool_log w2 = tool_log w @ [Magick i out d, Exiftool i out]"
proof -
  from copy_metadata_returns[OF assms(3,4)] obtain b
    where b: "copy_metadata env i out w1 = (Inr b, w2)" by blast
  have l: "tool_log w2 = tool_log w @ [Magick i out d, Exiftool i out]"
    using subprocess_run_log[OF assms(2)] subprocess_run_log[OF assms(3)] by simp
  show ?thesis
    using assms(1,2) b l by (simp add: transcode_with_magick_def ok_result_def)
qed

lemma transcode_jpeg:
  assumes "getsize (files w) i = Inr ib" and "detect_format (files w) i = Some ''jpg''"
    and "subprocess_run env (Cjxl i out) w = (oc, w1)"
  shows "transcode env i out d w =
     (case oc of
        TimeoutExpired \<Rightarrow> (Inr (failed_result i out ib 0 ''jpg'' ''cjxl timed out after 600s''), w1)
      | FileNotFound \<Rightarrow> transcode_with_magick env i out d w1
      | OtherFailure \<Rightarrow> (Inl Unexpected, w1)
      | Exited rc sout serr \<Rightarrow>
          if rc = 0 then (Inr (ok_result i out ib (size_or_zero (files w1) out) ''jpg''), w1)
          else transcode_with_magick env i out d w1)"
  using assms by (cases oc) (simp_all add: transcode_def)

lemma transcode_with_magick_log:
  assumes "getsize (files w) i = Inr ib"
  shows "\<exists>rest. tool_log (snd (transcode_with_magick env i out d w))
           = tool_log w @ Magick i out d # rest"
proof -
  obtain oc w1 where r: "subprocess_run env (Magick i out d) w = (oc, w1)"
    by (cases "subprocess_run env (Magick i out d) w")
  obtain oc2 w2 where r2: "subprocess_run env (Exiftool i out) w1 = (oc2, w2)"
    by (cases "subprocess_run env (Exiftool i out) w1")
  have l1: "tool_log w1 = tool_log w @ [Magick i out d]" using subprocess_run_log[OF r] .
  have l2: "tool_log w2 = tool_log w @ [Magick i out d, Exiftool i out]"
    using subprocess_run_log[OF r2] l1 by simp
  show ?thesis
    using assms r r2 l1 l2
    by (cases oc; cases oc2) (auto simp: transcode_with_magick_def copy_metadata_def Let_def)
qed

lemma getsize_after_tool:
  assumes "subprocess_run env c w = (oc, w1)" and "tool_target c \<noteq> Some p"
  shows "getsize (files w1) p = getsize (files w) p"
  using subprocess_run_files[OF assms] by (simp add: getsize_def)

text \<open>
  Claim C4, as amended. For a JPEG input \<open>transcode\<close> runs cjxl first. When cjxl exits
  with a non-zero code or is not installed, the result is that of ImageMagick, run next
  with the configured distance. When cjxl times out there is no fallback: the result is
  the failure \<open>cjxl timed out after 600s\<close> and no other tool has run.
\<close>

theorem transcode_jpeg_fallback:
  assumes "getsize (files w) i = Inr ib" and "detect_format (files w) i = Some ''jpg''"
    and "i \<noteq> out" and "subprocess_run env (Cjxl i out) w = (oc, w1)"
  shows "(\<exists>rest. tool_log (snd (transcode env i out d w)) = tool_log w @ Cjxl i out # rest) \<and>
     ((\<exists>rc sout serr. oc = Exited rc sout serr \<and> rc \<noteq> 0) \<or> oc = FileNotFound \<longrightarrow>
        transcode env i out d w = transcode_with_magick env i out d w1 \<and>
        (\<exists>rest. tool_log (snd (transcode env i out d w))
           = tool_log w @ Cjxl i out # Magick i out d # rest)) \<and>
     (oc = TimeoutExpired \<longrightarrow>
        transcode env i out d w
          = (Inr (failed_result i out ib 0 ''jpg'' ''cjxl timed out after 600s''), w1) \<and>
        tool_log (snd (transcode env i out d w)) = tool_log w @ [Cjxl i out])"
proof -
  note T = transcode_jpeg[OF assms(1,2,4), of d]
  have l1: "tool_log w1 = tool_log w @ [Cjxl i out]"
    using subprocess_run_log[OF assms(4)] .
  have g: "getsize (files w1) i = Inr ib"
    using getsize_after_tool[OF assms(4), of i] assms(1,3) by simp
  from transcode_with_magick_log[OF g, of env out d] obtain rest
    where m: "tool_log (snd (transcode_with_magick env i out d w1))
           = tool_log w @ Cjxl i out # Magick i out d # rest"
    using l1 by auto
  have a: "\<exists>rest. tool_log (snd (transcode env i out d w)) = tool_log w @ Cjxl i out # rest"
    using T m l1 by (cases oc) (auto split: if_splits)
  have b: "(\<exists>rc sout serr. oc = Exited rc sout serr \<and> rc \<noteq> 0) \<or> oc = FileNotFound \<longrightarrow>
        transcode env i out d w = transcode_with_magick env i out d w1 \<and>
        (\<exists>rest. tool_log (snd (transcode env i out d w))
           = tool_log w @ Cjxl i out # Magick i out d # rest)"
    using T m by auto
  have c: "oc = TimeoutExpired \<longrightarrow>
        transcode env i out d w
          = (Inr (failed_result i out ib 0 ''jpg'' ''cjxl timed out after 600s''), w1) \<and>
        tool_log (snd (transcode env i out d w)) = tool_log w @ [Cjxl i out]"
    using T l1 by auto
  show ?thesis using a b c by blast
qed

lemma jpeg_world_format:
  "detect_format (files (world_of (single_file p jpeg_file))) p = Some ''jpg''"
proof -
  have "classify_header (take 32 jpeg_file) = Some ''jpg''"
    by (rule classify_jpg) (simp add: jpeg_file_def)
  then show ?thesis
    by (simp add: detect_format_readable world_of_def single_file_def)
qed

lemma jpeg_world_size:
  "getsize (files (world_of (single_file p jpeg_file))) p = Inr 32"
  by (simp add: getsize_def world_of_def single_file_def jpeg_file_def)

lemma scripted_first:
  "subprocess_run (scripted_tools ((oc, ch) # rest)) c (world_of fs)
     = (oc, snd (subprocess_run (scripted_tools ((oc, ch) # rest)) c (world_of fs)))"
  by (simp add: subprocess_run_def scripted_tools_def world_of_def Let_def)

text \<open>C4 at a JPEG whose repack exits with code 1, and at one whose repack times out.\<close>

theorem transcode_jpeg_fallback_witness:
  "transcode (scripted_tools [(Exited 1 [] ''progressive'', Untouched)])
      ''/work/in/a.bin'' ''/work/out/a.jxl'' 1 (world_of (single_file ''/work/in/a.bin'' jpeg_file))
    = transcode_with_magick (scripted_tools [(Exited 1 [] ''progressive'', Untouched)])
      ''/work/in/a.bin'' ''/work/out/a.jxl'' 1
      (snd (subprocess_run (scripted_tools [(Exited 1 [] ''progressive'', Untouched)])
         (Cjxl ''/work/in/a.bin'' ''/work/out/a.jxl'')
         (world_of (single_file ''/work/in/a.bin'' jpeg_file)))) \<and>
   tool_log (snd (transcode (scripted_tools [(TimeoutExpired, Untouched)])
      ''/work/in/a.bin'' ''/work/out/a.jxl'' 1 (world_of (single_file ''/work/in/a.bin'' jpeg_file))))
    = [Cjxl ''/work/in/a.bin'' ''/work/out/a.jxl'']"
proof -
  let ?i = "''/work/in/a.bin''" and ?out = "''/work/out/a.jxl''"
  let ?w = "world_of (single_file ?i jpeg_file)"
  have ne: "?i \<noteq> ?out" by simp
  have l0: "tool_log ?w = []" by (simp add: world_of_def)
  note A = transcode_jpeg_fallback[OF jpeg_world_size jpeg_world_format ne
      scripted_first[of "Exited 1 [] ''progressive''" Untouched "[]"], of 1]
  note B = transcode_jpeg_fallback[OF jpeg_world_size jpeg_world_format ne
      scripted_first[of TimeoutExpired Untouched "[]"], of 1]
  from A have "transcode (scripted_tools [(Exited 1 [] ''progressive'', Untouched)]) ?i ?out 1 ?w
    = transcode_with_magick (scripted_tools [(Exited 1 [] ''progressive'', Untouched)]) ?i ?out 1
      (snd (subprocess_run (scripted_tools [(Exited 1 [] ''progressive'', Untouched)])
         (Cjxl ?i ?out) ?w))"
    by simp
  moreover have "tool_log (snd (transcode (scripted_tools [(TimeoutExpired, Untouched)])
      ?i ?out 1 ?w)) = [Cjxl ?i ?out]"
    using B[THEN conjunct2, THEN conjunct2, rule_format, OF refl, THEN conjunct2]
    by (simp only: l0 append_Nil)
  ultimately show ?thesis by blast
qed

text \<open>
  Claim C4 as it was stated fails: when cjxl times out on a JPEG, \<open>transcode\<close> returns
  the failure at once and ImageMagick is never invoked.
\<close>

theorem transcode_jpeg_timeout_counterexample:
  "detect_format (files (world_of (single_file ''/work/in/a.bin'' jpeg_file))) ''/work/in/a.bin''
     = Some ''jpg'' \<and>
   fst (transcode (scripted_tools [(TimeoutExpired, Untouched)])
      ''/work/in/a.bin'' ''/work/out/a.jxl'' 1 (world_of (single_file ''/work/in/a.bin'' jpeg_file)))
     = Inr (failed_result ''/work/in/a.bin'' ''/work/out/a.jxl'' 32 0 ''jpg''
         ''cjxl timed out after 600s'') \<and>
   tool_log (snd (transcode (scripted_tools [(TimeoutExpired, Untouched)])
      ''/work/in/a.bin'' ''/work/out/a.jxl'' 1 (world_of (single_file ''/work/in/a.bin'' jpeg_file))))
     = [Cjxl ''/work/in/a.bin'' ''/work/out/a.jxl'']"
proof -
  let ?i = "''/work/in/a.bin''" and ?out = "''/work/out/a.jxl''"
  let ?w = "world_of (single_file ?i jpeg_file)"
  let ?env = "scripted_tools [(TimeoutExpired, Untouched)]"
  have r: "subprocess_run ?env (Cjxl ?i ?out) ?w
     = (TimeoutExpired, snd (subprocess_run ?env (Cjxl ?i ?out) ?w))"
    by (rule scripted_first)
  have t: "transcode ?env ?i ?out 1 ?w
     = (Inr (failed_result ?i ?out 32 0 ''jpg'' ''cjxl timed out after 600s''),
        snd (subprocess_run ?env (Cjxl ?i ?out) ?w))"
    using transcode_jpeg[OF jpeg_world_size jpeg_world_format r, of 1] by simp
  have l: "tool_log (snd (subprocess_run ?env (Cjxl ?i ?out) ?w)) = [Cjxl ?i ?out]"
    using subprocess_run_log[OF r] by (simp add: world_of_def)
  show ?thesis using t l jpeg_world_format by simp
qed

lemma transcode_other_format:
  assumes "getsize (files w) i = Inr ib" and "detect_format (files w) i = Some fmt"
    and "fmt \<noteq> ''jxl''" and "fmt \<noteq> ''jpg''"
  shows "transcode env i out d w = transcode_with_magick env i out d w"
  using assms by (simp add: transcode_def)

text \<open>
  Claim C5, as amended. An image that is neither JPEG XL nor JPEG goes to ImageMagick.
  After every successful ImageMagick conversion exiftool is run from input to output, and
  whether it succeeds, fails, times out or is missing, the result has \<open>success\<close> true.
  The cjxl repack of a JPEG returns \<open>success\<close> true without running exiftool.
\<close>

theorem metadata_copy_after_magick:
  "(getsize (files w) i = Inr ib \<and> detect_format (files w) i = Some fmt
      \<and> fmt \<noteq> ''jxl'' \<and> fmt \<noteq> ''jpg''
      \<longrightarrow> transcode env i out d w = transcode_with_magick env i out d w) \<and>
   (getsize (files w) i = Inr ib
      \<and> subprocess_run env (Magick i out d) w = (Exited 0 sout serr, w1)
      \<and> subprocess_run env (Exiftool i out) w1 = (oc, w2) \<and> oc \<noteq> OtherFailure
      \<longrightarrow> (\<exists>r. transcode_with_magick env i out d w = (Inr r, w2) \<and> success r
            \<and> tool_log w2 = tool_log w @ [Magick i out d, Exiftool i out])) \<and>
   (getsize (files w) i = Inr ib \<and> detect_format (files w) i = Some ''jpg''
      \<and> subprocess_run env (Cjxl i out) w = (Exited 0 sout serr, w1)
      \<longrightarrow> (\<exists>r. transcode env i out d w = (Inr r, w1) \<and> success r
            \<and> tool_log w1 = tool_log w @ [Cjxl i out]))"
proof (intro conjI impI)
  assume "getsize (files w) i = Inr ib \<and> detect_format (files w) i = Some fmt
      \<and> fmt \<noteq> ''jxl'' \<and> fmt \<noteq> ''jpg''"
  then show "transcode env i out d w = transcode_with_magick env i out d w"
    using transcode_other_format by blast
next
  assume "getsize (files w) i = Inr ib
      \<and> subprocess_run env (Magick i out d) w = (Exited 0 sout serr, w1)
      \<and> subprocess_run env (Exiftool i out) w1 = (oc, w2) \<and> oc \<noteq> OtherFailure"
  then show "\<exists>r. transcode_with_magick env i out d w = (Inr r, w2) \<and> success r
            \<and> tool_log w2 = tool_log w @ [Magick i out d, Exiftool i out]"
    using transcode_with_magick_success by blast
next
  assume a: "getsize (files w) i = Inr ib \<and> detect_format (files w) i = Some ''jpg''
      \<and> subprocess_run env (Cjxl i out) w = (Exited 0 sout serr, w1)"
  then have "transcode env i out d w
     = (Inr (ok_result i out ib (size_or_zero (files w1) out) ''jpg''), w1)"
    using transcode_jpeg[of w i ib env out "Exited 0 sout serr" w1 d] by simp
  moreover have "tool_log w1 = tool_log w @ [Cjxl i out]"
    using a subprocess_run_log by blast
  ultimately show "\<exists>r. transcode env i out d w = (Inr r, w1) \<and> success r
            \<and> tool_log w1 = tool_log w @ [Cjxl i out]"
    by (simp add: ok_result_def)
qed

lemma png_world_format:
  "detect_format (files (world_of (single_file p png_file))) p = Some ''png''"
proof -
  have "classify_header (take 32 png_file) = Some ''png''"
    by (rule classify_png) (simp add: png_file_def)
  then show ?thesis
    by (simp add: detect_format_readable world_of_def single_file_def)
qed

lemma png_world_size:
  "getsize (files (world_of (single_file p png_file))) p = Inr 32"
  by (simp add: getsize_def world_of_def single_file_def png_file_def)

lemma scripted_next:
  assumes "length (tool_log w) < length answers" and "answers ! length (tool_log w) = (oc, ch)"
  shows "subprocess_run (scripted_tools answers) c w
     = (oc, snd (subprocess_run (scripted_tools answers) c w))"
  using assms by (simp add: subprocess_run_def scripted_tools_def Let_def)

text \<open>C5 at a PNG converted by ImageMagick with exiftool missing, and at a repacked JPEG.\<close>

theorem metadata_copy_after_magick_witness:
  "transcode (scripted_tools [(Exited 0 [] [], Written jxl_file), (FileNotFound, Untouched)])
      ''/work/in/a.bin'' ''/work/out/a.jxl'' 1 (world_of (single_file ''/work/in/a.bin'' png_file))
    = transcode_with_magick
      (scripted_tools [(Exited 0 [] [], Written jxl_file), (FileNotFound, Untouched)])
      ''/work/in/a.bin'' ''/work/out/a.jxl'' 1 (world_of (single_file ''/work/in/a.bin'' png_file)) \<and>
   (\<exists>r. fst (transcode_with_magick
      (scripted_tools [(Exited 0 [] [], Written jxl_file), (FileNotFound, Untouched)])
      ''/work/in/a.bin'' ''/work/out/a.jxl'' 1 (world_of (single_file ''/work/in/a.bin'' png_file)))
      = Inr r \<and> success r) \<and>
   tool_log (snd (transcode_with_magick
      (scripted_tools [(Exited 0 [] [], Written jxl_file), (FileNotFound, Untouched)])
      ''/work/in/a.bin'' ''/work/out/a.jxl'' 1 (world_of (single_file ''/work/in/a.bin'' png_file))))
    = [Magick ''/work/in/a.bin'' ''/work/out/a.jxl'' 1,
       Exiftool ''/work/in/a.bin'' ''/work/out/a.jxl''] \<and>
   (\<exists>r. fst (transcode (scripted_tools [(Exited 0 [] [], Written jxl_file)])
      ''/work/in/a.bin'' ''/work/out/a.jxl'' 1 (world_of (single_file ''/work/in/a.bin'' jpeg_file)))
      = Inr r \<and> success r)"
proof -
  let ?i = "''/work/in/a.bin''" and ?out = "''/work/out/a.jxl''"
  let ?wp = "world_of (single_file ?i png_file)"
  let ?wj = "world_of (single_file ?i jpeg_file)"
  let ?env = "scripted_tools [(Exited 0 [] [], Written jxl_file), (FileNotFound, Untouched)]"
  let ?envj = "scripted_tools [(Exited 0 [] [], Written jxl_file)]"
  let ?w1 = "snd (subprocess_run ?env (Magick ?i ?out 1) ?wp)"
  let ?w2 = "snd (subprocess_run ?env (Exiftool ?i ?out) ?w1)"
  have l0: "tool_log ?wp = []" by (simp add: world_of_def)
  have r1: "subprocess_run ?env (Magick ?i ?out 1) ?wp = (Exited 0 [] [], ?w1)"
    by (rule scripted_first)
  have l1: "tool_log ?w1 = [Magick ?i ?out 1]"
    using subprocess_run_log[OF r1] l0 by simp
  have r2: "subprocess_run ?env (Exiftool ?i ?out) ?w1 = (FileNotFound, ?w2)"
    by (rule scripted_next) (simp_all add: l1)
  have a: "transcode ?env ?i ?out 1 ?wp = transcode_with_magick ?env ?i ?out 1 ?wp"
    using metadata_copy_after_magick[of ?wp ?i 32 "''png''" ?env ?out 1, THEN conjunct1]
      png_world_size png_world_format by simp
  have "\<exists>r. transcode_with_magick ?env ?i ?out 1 ?wp = (Inr r, ?w2) \<and> success r
            \<and> tool_log ?w2 = tool_log ?wp @ [Magick ?i ?out 1, Exiftool ?i ?out]"
    using metadata_copy_after_magick[of ?wp ?i 32 _ ?env ?out 1 "[]" "[]" ?w1 FileNotFound ?w2,
        THEN conjunct2, THEN conjunct1] png_world_size r1 r2 by simp
  then obtain r where b: "transcode_with_magick ?env ?i ?out 1 ?wp = (Inr r, ?w2)"
    and sr: "success r"
    and l2: "tool_log ?w2 = tool_log ?wp @ [Magick ?i ?out 1, Exiftool ?i ?out]"
    by blast
  have b1: "\<exists>r. fst (transcode_with_magick ?env ?i ?out 1 ?wp) = Inr r \<and> success r"
    using b sr by simp
  have b2: "tool_log (snd (transcode_with_magick ?env ?i ?out 1 ?wp))
    = [Magick ?i ?out 1, Exiftool ?i ?out]"
    using b l2 l0 by simp
  let ?wj1 = "snd (subprocess_run ?envj (Cjxl ?i ?out) ?wj)"
  have rj: "subprocess_run ?envj (Cjxl ?i ?out) ?wj = (Exited 0 [] [], ?wj1)"
    by (rule scripted_first)
  have "\<exists>r. transcode ?envj ?i ?out 1 ?wj = (Inr r, ?wj1) \<and> success r
            \<and> tool_log ?wj1 = tool_log ?wj @ [Cjxl ?i ?out]"
    using metadata_copy_after_magick[of ?wj ?i 32 _ ?envj ?out 1 "[]" "[]" ?wj1,
        THEN conjunct2, THEN conjunct2] jpeg_world_size jpeg_world_format rj by simp
  then have c: "\<exists>r. fst (transcode ?envj ?i ?out 1 ?wj) = Inr r \<and> success r"
    by auto
  show ?thesis using a b1 b2 c by blast
qed

text \<open>
  Claim C5 as it was stated fails: after a successful cjxl repack the only tool that has
  run is cjxl; no metadata copy is attempted.
\<close>

theorem metadata_copy_cjxl_counterexample:
  "detect_format (files (world_of (single_file ''/work/in/a.bin'' jpeg_file))) ''/work/in/a.bin''
     = Some ''jpg'' \<and>
   fst (transcode (scripted_tools [(Exited 0 [] [], Written jxl_file)])
      ''/work/in/a.bin'' ''/work/out/a.jxl'' 1 (world_of (single_file ''/work/in/a.bin'' jpeg_file)))
     = Inr (ok_result ''/work/in/a.bin'' ''/work/out/a.jxl'' 32 32 ''jpg'') \<and>
   success (ok_result ''/work/in/a.bin'' ''/work/out/a.jxl'' 32 32 ''jpg'') \<and>
   tool_log (snd (transcode (scripted_tools [(Exited 0 [] [], Written jxl_file)])
      ''/work/in/a.bin'' ''/work/out/a.jxl'' 1 (world_of (single_file ''/work/in/a.bin'' jpeg_file))))
     = [Cjxl ''/work/in/a.bin'' ''/work/out/a.jxl'']"
proof -
  let ?i = "''/work/in/a.bin''" and ?out = "''/work/out/a.jxl''"
  let ?w = "world_of (single_file ?i jpeg_file)"
  let ?env = "scripted_tools [(Exited 0 [] [], Written jxl_file)]"
  let ?w1 = "snd (subprocess_run ?env (Cjxl ?i ?out) ?w)"
  have r: "subprocess_run ?env (Cjxl ?i ?out) ?w = (Exited 0 [] [], ?w1)"
    by (rule scripted_first)
  have t: "transcode ?env ?i ?out 1 ?w
     = (Inr (ok_result ?i ?out 32 (size_or_zero (files ?w1) ?out) ''jpg''), ?w1)"
    using transcode_jpeg[OF jpeg_world_size jpeg_world_format r, of 1] by simp
  have sz: "size_or_zero (files ?w1) ?out = 32"
    by (simp add: subprocess_run_def scripted_tools_def world_of_def Let_def apply_change_def
        size_or_zero_def jxl_file_def)
  have l: "tool_log ?w1 = [Cjxl ?i ?out]"
    using subprocess_run_log[OF r] by (simp add: world_of_def)
  show ?thesis using t sz l jpeg_world_format by (simp add: ok_result_def)
qed

section \<open>The call log: what the collaborators leave alone\<close>

lemma copy_metadata_calls:
  "copy_metadata env i out w = (r, w1) \<Longrightarrow> calls w1 = calls w"
  by (auto simp: copy_metadata_def split: prod.splits proc_outcome.splits
      dest: subprocess_run_frame)

lemma transcode_with_magick_calls:
  "transcode_with_magick env i out d w = (r, w1) \<Longrightarrow> calls w1 = calls w"
  by (auto simp: transcode_with_magick_def Let_def
      split: sum.splits prod.splits proc_outcome.splits if_splits
      dest!: subprocess_run_frame copy_metadata_calls)

lemma transcode_calls:
  "transcode env i out d w = (r, w1) \<Longrightarrow> calls w1 = calls w"
  by (auto simp: transcode_def
      split: sum.splits option.splits prod.splits proc_outcome.splits if_splits
      dest!: subprocess_run_frame transcode_with_magick_calls)

lemma detect_video_codec_calls:
  "detect_video_codec env p w = (r, w1) \<Longrightarrow> calls w1 = calls w"
  by (auto simp: detect_video_codec_def Let_def
      split: prod.splits proc_outcome.splits if_splits dest!: subprocess_run_frame)

lemma transcode_video_calls:
  "transcode_video env i out crf preset mx rate w = (r, w1) \<Longrightarrow> calls w1 = calls w"
  by (auto simp: transcode_video_def
      split: sum.splits option.splits prod.splits proc_outcome.splits if_splits
      dest!: subprocess_run_frame detect_video_codec_calls)

lemma validate_video_output_calls:
  "validate_video_output env p w = (r, w1) \<Longrightarrow> calls w1 = calls w"
  by (auto simp: validate_video_output_def Let_def
      split: prod.splits proc_outcome.splits option.splits if_splits
      dest!: subprocess_run_frame)

lemma requests_request_calls:
  "requests_request env rq w = (r, w1) \<Longrightarrow> calls w1 = calls w"
  by (auto simp: requests_request_def)

lemma time_sleep_calls: "calls (time_sleep n w) = calls w"
  by (simp add: time_sleep_def)

lemma request_attempts_calls:
  "request_attempts cl env rq attempt w = (r, w1) \<Longrightarrow> calls w1 = calls w"
proof (induction cl env rq attempt w arbitrary: r w1 rule: request_attempts.induct)
  case (1 cl env rq attempt w)
  obtain oc wa where rr: "requests_request env rq w = (oc, wa)"
    by (cases "requests_request env rq w")
  have ca: "calls wa = calls w" using requests_request_calls[OF rr] .
  show ?case
  proof (cases oc)
    case (Response resp)
    show ?thesis
    proof (cases "status_code resp \<noteq> 401 \<and> status_code resp \<noteq> 403 \<and> status_code resp \<noteq> 404
        \<and> (status_code resp = 429 \<or> 500 \<le> status_code resp) \<and> attempt < retry_max cl")
      case True
      then have "request_attempts cl env rq attempt w
          = request_attempts cl env rq (Suc attempt) (time_sleep (retry_backoff cl * 2 ^ attempt) wa)"
        using rr Response by (subst request_attempts.simps) simp
      then have "request_attempts cl env rq (Suc attempt)
          (time_sleep (retry_backoff cl * 2 ^ attempt) wa) = (r, w1)"
        using "1.prems" by simp
      then have "calls w1 = calls (time_sleep (retry_backoff cl * 2 ^ attempt) wa)"
        using "1.IH"(1)[OF rr[symmetric] Response] True by blast
      then show ?thesis using ca by (simp add: time_sleep_calls)
    next
      case False
      then have "snd (request_attempts cl env rq attempt w) = wa"
        using rr Response by (subst request_attempts.simps) auto
      then show ?thesis using "1.prems" ca by simp
    qed
  next
    case (RequestException msg)
    show ?thesis
    proof (cases "attempt < retry_max cl")
      case True
      then have "request_attempts cl env rq attempt w
          = request_attempts cl env rq (Suc attempt) (time_sleep (retry_backoff cl * 2 ^ attempt) wa)"
        using rr RequestException by (subst request_attempts.simps) simp
      then have "request_attempts cl env rq (Suc attempt)
          (time_sleep (retry_backoff cl * 2 ^ attempt) wa) = (r, w1)"
        using "1.prems" by simp
      then have "calls w1 = calls (time_sleep (retry_backoff cl * 2 ^ attempt) wa)"
        using "1.IH"(2)[OF rr[symmetric] RequestException True] by blast
      then show ?thesis using ca by (simp add: time_sleep_calls)
    next
      case False
      then have "snd (request_attempts cl env rq attempt w) = wa"
        using rr RequestException by (subst request_attempts.simps) auto
      then show ?thesis using "1.prems" ca by simp
    qed
  qed
qed

lemma upload_attempts_calls:
  "upload_attempts cl env fp rq attempt w = (r, w1) \<Longrightarrow> calls w1 = calls w"
proof (induction cl env fp rq attempt w arbitrary: r w1 rule: upload_attempts.induct)
  case (1 cl env fp rq attempt w)
  let ?next = "upload_attempts cl env fp rq (Suc attempt)
      (time_sleep (retry_backoff cl * 2 ^ attempt) (snd (requests_request env rq w)))"
  show ?case
  proof (cases "read_prefix (files w) fp 0")
    case (Inl e)
    then have "snd (upload_attempts cl env fp rq attempt w) = w"
      by (subst upload_attempts.simps) simp
    then show ?thesis using "1.prems" by simp
  next
    case (Inr opened)
    obtain oc wa where rr: "requests_request env rq w = (oc, wa)"
      by (cases "requests_request env rq w")
    have ca: "calls wa = calls w" using requests_request_calls[OF rr] .
    have again: "calls w1 = calls w"
      if "upload_attempts cl env fp rq attempt w = ?next"
        and "\<And>r' w'. ?next = (r', w') \<Longrightarrow>
              calls w' = calls (time_sleep (retry_backoff cl * 2 ^ attempt) wa)"
    proof -
      have "?next = (r, w1)" using that(1) "1.prems" by simp
      then have "calls w1 = calls (time_sleep (retry_backoff cl * 2 ^ attempt) wa)"
        by (rule that(2))
      then show ?thesis using ca by (simp add: time_sleep_calls)
    qed
    show ?thesis
    proof (cases oc)
      case (Response resp)
      consider (status) "status_code resp \<noteq> 401" "status_code resp \<noteq> 403"
          "(status_code resp = 429 \<or> 500 \<le> status_code resp) \<and> attempt < retry_max cl"
        | (body) msg where "status_code resp \<noteq> 401" "status_code resp \<noteq> 403"
          "\<not> ((status_code resp = 429 \<or> 500 \<le> status_code resp) \<and> attempt < retry_max cl)"
          "status_code resp = 200 \<or> status_code resp = 201" "json resp = NotJson msg"
          "attempt < retry_max cl"
        | (stop) "snd (upload_attempts cl env fp rq attempt w) = wa"
      proof (cases "status_code resp \<noteq> 401 \<and> status_code resp \<noteq> 403
          \<and> (status_code resp = 429 \<or> 500 \<le> status_code resp) \<and> attempt < retry_max cl")
        case True
        then show ?thesis using status by blast
      next
        case nr: False
        show ?thesis
        proof (cases "status_code resp \<noteq> 401 \<and> status_code resp \<noteq> 403
            \<and> (status_code resp = 200 \<or> status_code resp = 201)
            \<and> (\<exists>msg. json resp = NotJson msg) \<and> attempt < retry_max cl")
          case True
          then show ?thesis using nr body by blast
        next
          case False
          with nr have "snd (upload_attempts cl env fp rq attempt w) = wa"
            using rr Response Inr
            by (subst upload_attempts.simps) (auto split: json_body.splits)
          then show ?thesis by (rule stop)
        qed
      qed
      then show ?thesis
      proof cases
        case status
        have "upload_attempts cl env fp rq attempt w = ?next"
          using rr Response Inr status by (subst upload_attempts.simps) simp
        then show ?thesis
          using "1.IH"(1)[OF Inr rr[symmetric] Response status] rr by (intro again) simp_all
      next
        case body
        have "upload_attempts cl env fp rq attempt w = ?next"
          using rr Response Inr body by (subst upload_attempts.simps) simp
        then show ?thesis
          using "1.IH"(2)[OF Inr rr[symmetric] Response body] rr by (intro again) simp_all
      next
        case stop
        then show ?thesis using "1.prems" ca by simp
      qed
    next
      case (RequestException msg)
      show ?thesis
      proof (cases "attempt < retry_max cl")
        case True
        have "upload_attempts cl env fp rq attempt w = ?next"
          using rr RequestException Inr True by (subst upload_attempts.simps) simp
        then show ?thesis
          using "1.IH"(3)[OF Inr rr[symmetric] RequestException True] rr
          by (intro again) simp_all
      next
        case False
        then have "snd (upload_attempts cl env fp rq attempt w) = wa"
          using rr RequestException Inr by (subst upload_attempts.simps) auto
        then show ?thesis using "1.prems" ca by simp
      qed
    qed
  qed
qed

lemma request_with_retry_calls:
  "request_with_retry cl env rq w = (r, w1) \<Longrightarrow> calls w1 = calls w"
  unfolding request_with_retry_def by (rule request_attempts_calls)

lemma download_original_calls:
  "download_original cl env aid p w = (r, w1) \<Longrightarrow> calls w1 = calls w"
  by (auto simp: download_original_def Let_def
      split: prod.splits sum.splits option.splits if_splits
      dest!: request_with_retry_calls)

lemma get_asset_calls:
  "get_asset cl env aid w = (r, w1) \<Longrightarrow> calls w1 = calls w"
  by (auto simp: get_asset_def split: prod.splits sum.splits if_splits
      dest!: request_with_retry_calls)

lemma copy_asset_data_calls:
  "copy_asset_data cl env a b w = (r, w1) \<Longrightarrow> calls w1 = calls w"
  by (auto simp: copy_asset_data_def split: prod.splits sum.splits if_splits
      dest!: request_with_retry_calls)

lemma delete_assets_calls:
  "delete_assets cl env ids w = (r, w1) \<Longrightarrow> calls w1 = calls w"
  by (auto simp: delete_assets_def split: prod.splits sum.splits if_splits
      dest!: request_with_retry_calls)

lemma upload_asset_calls:
  "upload_asset cl env fp a b c d f w = (r, w1) \<Longrightarrow> calls w1 = calls w"
  unfolding upload_asset_def by (rule upload_attempts_calls)

lemma log_call_calls: "calls (log_call c w) = calls w @ [c]"
  by (simp add: log_call_def)

section \<open>The calls of each stage\<close>

lemma download_stage_calls:
  assumes "download_stage cl env asset config is_video inp info w = (fl, w1)"
  shows "\<exists>cs. calls w1 = calls w @ cs
           \<and> (\<forall>c \<in> set cs. (\<exists>a p r. c = CDownload a p r) \<or> (\<exists>p r. c = CDetectCodec p r))"
proof (cases "dry_run config \<and> \<not> is_video")
  case True
  then show ?thesis using assms by (auto simp: download_stage_def)
next
  case False
  obtain ib err wa where d: "download_original cl env (asset_id asset) inp w = ((ib, err), wa)"
    by (cases "download_original cl env (asset_id asset) inp w") auto
  let ?wb = "log_call (CDownload (asset_id asset) inp (ib, err)) wa"
  have cb: "calls ?wb = calls w @ [CDownload (asset_id asset) inp (ib, err)]"
    using download_original_calls[OF d] by (simp add: log_call_calls)
  show ?thesis
  proof (cases "\<not> truthy err \<and> dry_run config \<and> is_video")
    case True
    obtain rc wc where c: "detect_video_codec env inp ?wb = (rc, wc)"
      by (cases "detect_video_codec env inp ?wb")
    have cc: "calls wc = calls ?wb" using detect_video_codec_calls[OF c] .
    show ?thesis
      using assms False True d c cb cc
      by (cases rc) (auto simp: download_stage_def Let_def log_call_calls split: if_splits)
  next
    case F2: False
    then show ?thesis
      using assms False d cb by (auto simp: download_stage_def Let_def split: if_splits)
  qed
qed

lemma attempt_call_simps [simp]:
  "is_attempt (attempt_call config is_video crf d inp out result)"
  "\<not> is_replace_call (attempt_call config is_video crf d inp out result)"
  "\<not> is_upload (attempt_call config is_video crf d inp out result)"
  by (simp_all add: attempt_call_def)

lemma transcode_and_validate_returns:
  assumes "transcode_and_validate env config is_video crf d inp out w = (Inr (result, v), w1)"
  shows "\<exists>vc. calls w1 = calls w @ [attempt_call config is_video crf d inp out result, vc]
           \<and> \<not> is_attempt vc \<and> \<not> is_replace_call vc"
proof (cases is_video)
  case True
  obtain r1 wa where t: "transcode_video env inp out crf (video_preset config)
      (video_max_dimension config) (video_audio_bitrate config) w = (r1, wa)"
    by (cases "transcode_video env inp out crf (video_preset config)
      (video_max_dimension config) (video_audio_bitrate config) w")
  from assms True t obtain res where r1: "r1 = Inr res"
    by (cases r1) (auto simp: transcode_and_validate_def)
  let ?wb = "log_call (CTranscodeVideo inp out crf (video_preset config)
      (video_max_dimension config) (video_audio_bitrate config) res) wa"
  obtain r2 wc where vv: "validate_video_output env out ?wb = (r2, wc)"
    by (cases "validate_video_output env out ?wb")
  have c1: "calls wa = calls w" using transcode_video_calls[OF t] .
  have c2: "calls wc = calls ?wb" using validate_video_output_calls[OF vv] .
  show ?thesis
    using assms True t r1 vv c1 c2
    by (cases r2) (auto simp: transcode_and_validate_def log_call_calls attempt_call_def)
next
  case False
  obtain r1 wa where t: "transcode env inp out d w = (r1, wa)"
    by (cases "transcode env inp out d w")
  have c1: "calls wa = calls w" using transcode_calls[OF t] .
  show ?thesis
    using assms False t c1
    by (cases r1) (auto simp: transcode_and_validate_def Let_def log_call_calls attempt_call_def)
qed

lemma transcode_and_validate_raises:
  assumes "transcode_and_validate env config is_video crf d inp out w = (Inl e, w1)"
  shows "\<exists>cs. calls w1 = calls w @ cs \<and> (\<forall>c \<in> set cs. \<not> is_replace_call c)"
proof (cases is_video)
  case True
  obtain r1 wa where t: "transcode_video env inp out crf (video_preset config)
      (video_max_dimension config) (video_audio_bitrate config) w = (r1, wa)"
    by (cases "transcode_video env inp out crf (video_preset config)
      (video_max_dimension config) (video_audio_bitrate config) w")
  have c1: "calls wa = calls w" using transcode_video_calls[OF t] .
  show ?thesis
  proof (cases r1)
    case (Inl e1)
    then show ?thesis using assms True t c1 by (auto simp: transcode_and_validate_def)
  next
    case (Inr res)
    let ?wb = "log_call (CTranscodeVideo inp out crf (video_preset config)
      (video_max_dimension config) (video_audio_bitrate config) res) wa"
    obtain r2 wc where vv: "validate_video_output env out ?wb = (r2, wc)"
      by (cases "validate_video_output env out ?wb")
    have c2: "calls wc = calls ?wb" using validate_video_output_calls[OF vv] .
    show ?thesis
      using assms True t Inr vv c1 c2
      by (cases r2) (auto simp: transcode_and_validate_def log_call_calls)
  qed
next
  case False
  obtain r1 wa where t: "transcode env inp out d w = (r1, wa)"
    by (cases "transcode env inp out d w")
  have c1: "calls wa = calls w" using transcode_calls[OF t] .
  show ?thesis
    using assms False t c1
    by (cases r1) (auto simp: transcode_and_validate_def Let_def)
qed

lemma transcode_stage_calls:
  assumes "transcode_stage env config is_video inp out info w = (fl, w1)"
  shows "\<exists>cs. calls w1 = calls w @ cs \<and> (\<forall>c \<in> set cs. \<not> is_replace_call c)"
proof -
  obtain r wa where t: "transcode_and_validate env config is_video (video_crf config)
      (image_distance config) inp out w = (r, wa)"
    by (cases "transcode_and_validate env config is_video (video_crf config)
      (image_distance config) inp out w")
  show ?thesis
  proof (cases r)
    case (Inl e)
    then have "w1 = wa" using assms t by (simp add: transcode_stage_def)
    then show ?thesis using transcode_and_validate_raises[OF t[unfolded Inl]] by simp
  next
    case (Inr rv)
    obtain result v where rv: "rv = (result, v)" by (cases rv)
    have "w1 = wa" using assms t Inr rv by (auto simp: transcode_stage_def split: if_splits)
    then show ?thesis using transcode_and_validate_returns[OF t[unfolded Inr rv]] by auto
  qed
qed

lemma transcode_stage_next:
  assumes "transcode_stage env config is_video inp out info w = (Next (ob, info2), w1)"
  shows "\<exists>result vc. calls w1 = calls w @ [attempt_call config is_video (video_crf config)
             (image_distance config) inp out result, vc]
           \<and> \<not> is_attempt vc \<and> \<not> is_replace_call vc \<and> success result
           \<and> ob = output_bytes result \<and> info2 = info\<lparr>info_output_bytes := ob\<rparr>"
proof -
  obtain r wa where t: "transcode_and_validate env config is_video (video_crf config)
      (image_distance config) inp out w = (r, wa)"
    by (cases "transcode_and_validate env config is_video (video_crf config)
      (image_distance config) inp out w")
  show ?thesis
  proof (cases r)
    case (Inl e)
    then show ?thesis using assms t by (simp add: transcode_stage_def)
  next
    case (Inr rv)
    obtain result v where rv: "rv = (result, v)" by (cases rv)
    have f: "w1 = wa \<and> success result \<and> ob = output_bytes result
        \<and> info2 = info\<lparr>info_output_bytes := ob\<rparr>"
      using assms t Inr rv by (auto simp: transcode_stage_def split: if_splits)
    then show ?thesis using transcode_and_validate_returns[OF t[unfolded Inr rv]] by auto
  qed
qed

lemma retry_stage_calls:
  assumes "retry_stage env config is_video inp out ib ob info w = (fl, w1)"
  shows "\<exists>cs. calls w1 = calls w @ cs \<and> (\<forall>c \<in> set cs. \<not> is_replace_call c)"
proof (cases "ib < ob \<and> \<not> allow_larger config \<and> enable_retry config")
  case True
  obtain r wa where t: "transcode_and_validate env config is_video (video_crf_retry config)
      (image_distance_retry config) inp out w = (r, wa)"
    by (cases "transcode_and_validate env config is_video (video_crf_retry config)
      (image_distance_retry config) inp out w")
  show ?thesis
  proof (cases r)
    case (Inl e)
    then have "w1 = wa" using assms t True by (simp add: retry_stage_def)
    then show ?thesis using transcode_and_validate_raises[OF t[unfolded Inl]] by simp
  next
    case (Inr rv)
    obtain result v where rv: "rv = (result, v)" by (cases rv)
    have "w1 = wa" using assms t Inr rv True by (auto simp: retry_stage_def split: if_splits)
    then show ?thesis using transcode_and_validate_returns[OF t[unfolded Inr rv]] by auto
  qed
next
  case False
  then have "w1 = w" using assms by (auto simp: retry_stage_def split: if_splits)
  then show ?thesis by simp
qed

lemma replace_stage_trace:
  assumes "replace_stage cl env asset tf out ib ob info0 w = (r, w1)"
  shows "\<exists>rs. calls w1 = calls w @ rs \<and> replace_trace asset rs (status r)"
proof -
  let ?I = "if ib > 0
      then info0\<lparr>savings_pct := (real_of_int (int ib - int ob) / real ib) * 100\<rparr>
      else info0"
  let ?fn = "Some (fst (splitext (original_file_name asset)) @ ''.'' @ tf)"
  let ?da = "asset_id asset @ ''-'' @ tf"
  obtain x e1 wa where u: "upload_asset cl env out ?da (device_id asset) (file_created_at asset)
      (file_modified_at asset) ?fn w = ((x, e1), wa)"
    by (cases "upload_asset cl env out ?da (device_id asset) (file_created_at asset)
      (file_modified_at asset) ?fn w") auto
  let ?U = "CUpload out ?da (device_id asset) (file_created_at asset) (file_modified_at asset)
      ?fn (x, e1)"
  let ?w1 = "log_call ?U wa"
  have c1: "calls ?w1 = calls w @ [?U]"
    using upload_asset_calls[OF u] by (simp add: log_call_calls)
  show ?thesis
  proof (cases "\<exists>nid. x = Some nid \<and> \<not> truthy e1 \<and> nid \<noteq> []")
    case False
    then have "replace_stage cl env asset tf out ib ob info0 w
        = (?I\<lparr>status := ''failed_upload''\<rparr>, ?w1)"
      using u by (cases x) (simp_all add: replace_stage_def Let_def)
    then have "w1 = ?w1 \<and> r = ?I\<lparr>status := ''failed_upload''\<rparr>"
      using assms by simp
    then have "calls w1 = calls w @ [?U] \<and> status r = ''failed_upload''"
      using c1 by simp
    then show ?thesis by (simp add: replace_trace.failed_upload)
  next
    case True
    then obtain nid where x: "x = Some nid" and ok1: "\<not> truthy e1" and ne: "nid \<noteq> []"
      by blast
    obtain copied wb where cpy: "copy_asset_data cl env (asset_id asset) nid ?w1 = (copied, wb)"
      by (cases "copy_asset_data cl env (asset_id asset) nid ?w1")
    let ?C = "CCopy (asset_id asset) nid copied"
    let ?w2 = "log_call ?C wb"
    have c2: "calls ?w2 = calls w @ [?U, ?C]"
      using copy_asset_data_calls[OF cpy] c1 by (simp add: log_call_calls)
    show ?thesis
    proof (cases "fst copied")
      case False
      then obtain e2 where cf: "copied = (False, e2)" by (cases copied) simp
      obtain dl wc where d: "delete_assets cl env [nid] ?w2 = (dl, wc)"
        by (cases "delete_assets cl env [nid] ?w2")
      have "replace_stage cl env asset tf out ib ob info0 w
          = (?I\<lparr>status := ''failed_copy''\<rparr>, log_call (CDelete [nid] dl) wc)"
        using u x ok1 ne cpy False d by (simp add: replace_stage_def Let_def)
      then have "w1 = log_call (CDelete [nid] dl) wc \<and> r = ?I\<lparr>status := ''failed_copy''\<rparr>"
        using assms by simp
      then have "calls w1 = calls w @ [?U, ?C, CDelete [nid] dl] \<and> status r = ''failed_copy''"
        using delete_assets_calls[OF d] c2 by (simp add: log_call_calls)
      then show ?thesis using replace_trace.failed_copy[OF ok1 ne] x cf by simp
    next
      case cpT: True
      then obtain e2 where cf: "copied = (True, e2)" by (cases copied) simp
      obtain verified wc where g: "get_asset cl env nid ?w2 = (verified, wc)"
        by (cases "get_asset cl env nid ?w2")
      let ?G = "CGet nid verified"
      let ?w3 = "log_call ?G wc"
      have c3: "calls ?w3 = calls w @ [?U, ?C, ?G]"
        using get_asset_calls[OF g] c2 by (simp add: log_call_calls)
      show ?thesis
      proof (cases "fst verified")
        case False
        then obtain e3 where vf: "verified = (False, e3)" by (cases verified) simp
        obtain dl wd where d: "delete_assets cl env [nid] ?w3 = (dl, wd)"
          by (cases "delete_assets cl env [nid] ?w3")
        have "replace_stage cl env asset tf out ib ob info0 w
            = (?I\<lparr>status := ''failed_verification''\<rparr>, log_call (CDelete [nid] dl) wd)"
          using u x ok1 ne cpy cpT g False d by (simp add: replace_stage_def Let_def)
        then have "w1 = log_call (CDelete [nid] dl) wd
            \<and> r = ?I\<lparr>status := ''failed_verification''\<rparr>"
          using assms by simp
        then have "calls w1 = calls w @ [?U, ?C, ?G, CDelete [nid] dl]
            \<and> status r = ''failed_verification''"
          using delete_assets_calls[OF d] c3 by (simp add: log_call_calls)
        then show ?thesis using replace_trace.failed_verification[OF ok1 ne] x cf vf by simp
      next
        case vfT: True
        then obtain e3 where vf: "verified = (True, e3)" by (cases verified) simp
        obtain deleted wd where d: "delete_assets cl env [asset_id asset] ?w3 = (deleted, wd)"
          by (cases "delete_assets cl env [asset_id asset] ?w3")
        obtain ok e4 where dd: "deleted = (ok, e4)" by (cases deleted)
        have "replace_stage cl env asset tf out ib ob info0 w
            = (?I\<lparr>status := (if \<not> fst deleted then ''partial_success'' else ''success'')\<rparr>,
               log_call (CDelete [asset_id asset] deleted) wd)"
          using u x ok1 ne cpy cpT g vfT d by (simp add: replace_stage_def Let_def)
        then have "w1 = log_call (CDelete [asset_id asset] deleted) wd
            \<and> r = ?I\<lparr>status := (if \<not> fst deleted then ''partial_success'' else ''success'')\<rparr>"
          using assms by simp
        then have "calls w1 = calls w @ [?U, ?C, ?G, CDelete [asset_id asset] (ok, e4)]
            \<and> status r = (if ok then ''success'' else ''partial_success'')"
          using delete_assets_calls[OF d] c3 dd by (simp add: log_call_calls)
        then show ?thesis using replace_trace.replaced[OF ok1 ne] x cf vf by simp
      qed
    qed
  qed
qed

lemma cleanup_calls: "calls (cleanup env p w) = calls w"
  by (simp add: cleanup_def)

section \<open>The calls of a run\<close>

lemma download_stage_no_replace:
  assumes "download_stage cl env asset config is_video inp info w = (fl, w1)"
  shows "\<exists>cs. calls w1 = calls w @ cs \<and> (\<forall>c \<in> set cs. \<not> is_replace_call c)"
proof -
  from download_stage_calls[OF assms] obtain cs where cs: "calls w1 = calls w @ cs"
    and k: "\<forall>c \<in> set cs. (\<exists>a p r. c = CDownload a p r) \<or> (\<exists>p r. c = CDetectCodec p r)"
    by blast
  from k have "\<forall>c \<in> set cs. \<not> is_replace_call c" by auto
  with cs show ?thesis by blast
qed

lemma process_body_trace:
  assumes "process_body cl env asset config inp out w = (r, w')"
  shows "\<exists>pre rs. calls w' = calls w @ pre @ rs \<and> (\<forall>c \<in> set pre. \<not> is_replace_call c)
      \<and> (rs = [] \<or> (\<exists>info. r = Inr info \<and> replace_trace asset rs (status info)))"
proof -
  let ?v = "asset_type asset = ''VIDEO''"
  let ?i0 = "\<lparr>status = ''unknown'', info_input_bytes = 0, info_output_bytes = 0,
      savings_pct = 0\<rparr>"
  have quiet: "\<exists>pre rs. calls w' = calls w @ pre @ rs \<and> (\<forall>c \<in> set pre. \<not> is_replace_call c)
      \<and> (rs = [] \<or> (\<exists>info. r = Inr info \<and> replace_trace asset rs (status info)))"
    if "calls w' = calls w @ cs" and "\<forall>c \<in> set cs. \<not> is_replace_call c" for cs
    using that by (intro exI[of _ cs] exI[of _ "[]"]) simp
  obtain f1 wa where d: "download_stage cl env asset config ?v inp ?i0 w = (f1, wa)"
    by (cases "download_stage cl env asset config ?v inp ?i0 w")
  from download_stage_no_replace[OF d] obtain c1 where c1: "calls wa = calls w @ c1"
    and n1: "\<forall>c \<in> set c1. \<not> is_replace_call c" by blast
  show ?thesis
  proof (cases f1)
    case (Raise e)
    then have "w' = wa" using assms d by (simp add: process_body_def)
    then show ?thesis using quiet[of c1] c1 n1 by simp
  next
    case (Return info)
    then have "w' = wa" using assms d by (simp add: process_body_def)
    then show ?thesis using quiet[of c1] c1 n1 by simp
  next
    case (Next a1)
    obtain ib info1 where a1: "a1 = (ib, info1)" by (cases a1)
    obtain f2 wb where t: "transcode_stage env config ?v inp out info1 wa = (f2, wb)"
      by (cases "transcode_stage env config ?v inp out info1 wa")
    from transcode_stage_calls[OF t] obtain c2 where c2: "calls wb = calls wa @ c2"
      and n2: "\<forall>c \<in> set c2. \<not> is_replace_call c" by blast
    have c12: "calls wb = calls w @ (c1 @ c2)" using c1 c2 by simp
    have n12: "\<forall>c \<in> set (c1 @ c2). \<not> is_replace_call c" using n1 n2 by auto
    show ?thesis
    proof (cases f2)
      case (Raise e)
      then have "w' = wb" using assms d Next a1 t by (simp add: process_body_def)
      then show ?thesis using quiet[of "c1 @ c2"] c12 n12 by simp
    next
      case (Return info)
      then have "w' = wb" using assms d Next a1 t by (simp add: process_body_def)
      then show ?thesis using quiet[of "c1 @ c2"] c12 n12 by simp
    next
      case N2: (Next a2)
      obtain ob info2 where a2: "a2 = (ob, info2)" by (cases a2)
      obtain f3 wc where q: "retry_stage env config ?v inp out ib ob info2 wb = (f3, wc)"
        by (cases "retry_stage env config ?v inp out ib ob info2 wb")
      from retry_stage_calls[OF q] obtain c3 where c3: "calls wc = calls wb @ c3"
        and n3: "\<forall>c \<in> set c3. \<not> is_replace_call c" by blast
      have c123: "calls wc = calls w @ (c1 @ c2 @ c3)" using c12 c3 by simp
      have n123: "\<forall>c \<in> set (c1 @ c2 @ c3). \<not> is_replace_call c" using n12 n3 by auto
      show ?thesis
      proof (cases f3)
        case (Raise e)
        then have "w' = wc" using assms d Next a1 t N2 a2 q by (simp add: process_body_def)
        then show ?thesis using quiet[of "c1 @ c2 @ c3"] c123 n123 by simp
      next
        case (Return info)
        then have "w' = wc" using assms d Next a1 t N2 a2 q by (simp add: process_body_def)
        then show ?thesis using quiet[of "c1 @ c2 @ c3"] c123 n123 by simp
      next
        case N3: (Next a3)
        obtain ob' info3 where a3: "a3 = (ob', info3)" by (cases a3)
        obtain r4 wd where p: "replace_stage cl env asset (get_target_format asset) out ib ob'
            info3 wc = (r4, wd)"
          by (cases "replace_stage cl env asset (get_target_format asset) out ib ob' info3 wc")
        have res: "r = Inr r4 \<and> w' = wd"
          using assms d Next a1 t N2 a2 q N3 a3 p by (simp add: process_body_def)
        from replace_stage_trace[OF p] obtain rs where rs: "calls wd = calls wc @ rs"
          and tr: "replace_trace asset rs (status r4)" by blast
        have "calls w' = calls w @ (c1 @ c2 @ c3) @ rs" using res rs c123 by simp
        then show ?thesis using n123 tr res by blast
      qed
    qed
  qed
qed

lemma process_asset_trace:
  assumes "process_asset cl env asset config w = (r, w')"
  shows "\<exists>pre rs. new_calls w w' = pre @ rs \<and> (\<forall>c \<in> set pre. \<not> is_replace_call c)
      \<and> (rs = [] \<or> (\<exists>info. r = Inr info \<and> replace_trace asset rs (status info)))"
proof (cases "asset_type asset \<noteq> ''VIDEO'' \<and> should_skip_by_mime_type asset")
  case True
  then have "w' = w" using assms by (simp add: process_asset_def)
  then have "new_calls w w' = [] @ []" by (simp add: new_calls_def)
  then show ?thesis by (intro exI[of _ "[]"]) simp
next
  case False
  obtain r1 w1 where b: "process_body cl env asset config (scratch_input config asset)
      (scratch_output config asset) w = (r1, w1)"
    by (cases "process_body cl env asset config (scratch_input config asset)
      (scratch_output config asset) w")
  have res: "r = r1 \<and> w' = cleanup env (scratch_output config asset)
      (cleanup env (scratch_input config asset) w1)"
    using assms False b by (simp add: process_asset_def)
  then have "calls w' = calls w1" by (simp add: cleanup_calls)
  moreover from process_body_trace[OF b] obtain pre rs where
    "calls w1 = calls w @ pre @ rs" and k: "\<forall>c \<in> set pre. \<not> is_replace_call c"
    "rs = [] \<or> (\<exists>info. r1 = Inr info \<and> replace_trace asset rs (status info))" by blast
  ultimately have "new_calls w w' = pre @ rs" by (simp add: new_calls_def)
  then show ?thesis using k res by blast
qed

section \<open>Properties of the replace protocol\<close>

lemma is_delete_replace: "is_delete c \<Longrightarrow> is_replace_call c"
  by (cases c) simp_all


text \<open>The calls of the run in which every request succeeds.\<close>

lemma replaced_run_calls:
  "new_calls (world_of Map.empty) (snd replaced_run) =
     [CDownload ''a1'' ''/work/in/a1.bin'' (32, None),
      CTranscode ''/work/in/a1.bin'' ''/work/out/a1.jxl'' 1
        (ok_result ''/work/in/a1.bin'' ''/work/out/a1.jxl'' 32 32 ''jpg''),
      CValidate ''/work/out/a1.jxl'' ''jxl'' True,
      CUpload ''/work/out/a1.jxl'' ''a1-jxl'' ''phone'' ''2024-01-01T00:00:00Z''
        ''2024-01-01T00:00:00Z'' (Some ''IMG_0001.jxl'') (Some ''n1'', None),
      CCopy ''a1'' ''n1'' (True, None), CGet ''n1'' (True, None),
      CDelete [''a1''] (True, None)]"
  by code_simp


text \<open>
  Claim C7. In every run of \<open>process_asset\<close> in which the verification of the new asset
  succeeded and the delete of the original failed, the result is the status
  \<open>partial_success\<close>; the run ends with the successful upload, the successful copy, the
  successful verification and that delete, and it is the only delete call of the run: no
  delete is issued for the new asset.
\<close>

theorem original_delete_failure_is_partial_success:
  assumes run: "process_asset cl env asset config w = (r, w')"
    and verified: "CGet nid (True, e3) \<in> set (new_calls w w')"
    and del: "CDelete [asset_id asset] (False, e4) \<in> set (new_calls w w')"
  shows "(\<exists>info. r = Inr info \<and> status info = ''partial_success'') \<and>
     filter is_delete (new_calls w w') = [CDelete [asset_id asset] (False, e4)] \<and>
     (\<exists>pre p a b c d f e1 e2.
        new_calls w w' = pre @ [CUpload p a b c d f (Some nid, e1),
                                CCopy (asset_id asset) nid (True, e2),
                                CGet nid (True, e3), CDelete [asset_id asset] (False, e4)]
        \<and> \<not> truthy e1 \<and> (\<forall>c \<in> set pre. \<not> is_replace_call c))"
proof -
  from process_asset_trace[OF run] obtain pre rs where n: "new_calls w w' = pre @ rs"
    and np: "\<forall>c \<in> set pre. \<not> is_replace_call c"
    and k: "rs = [] \<or> (\<exists>info. r = Inr info \<and> replace_trace asset rs (status info))"
    by blast
  have "CGet nid (True, e3) \<notin> set pre" "CDelete [asset_id asset] (False, e4) \<notin> set pre"
    using np by auto
  then have g: "CGet nid (True, e3) \<in> set rs"
    and d: "CDelete [asset_id asset] (False, e4) \<in> set rs"
    using verified del n by simp_all
  then have "rs \<noteq> []" by auto
  with k obtain info where r: "r = Inr info" and tr: "replace_trace asset rs (status info)"
    by blast
  have fp: "filter is_delete pre = []"
    using np is_delete_replace by (auto simp: filter_empty_conv)
  from tr show ?thesis
  proof cases
    case (failed_upload p a b c d f x e1)
    then show ?thesis using g by simp
  next
    case (failed_copy e1 nid' p a b c d f e2 dl)
    then show ?thesis using g by simp
  next
    case (failed_verification e1 nid' p a b c d f e2 e3' dl)
    then show ?thesis using g by simp
  next
    case (replaced e1 nid' p a b c d f e2 e3' ok e4')
    then have eq: "nid' = nid" "e3' = e3" "ok = False" "e4' = e4" using g d by simp_all
    have rs: "rs = [CUpload p a b c d f (Some nid, e1), CCopy (asset_id asset) nid (True, e2),
        CGet nid (True, e3), CDelete [asset_id asset] (False, e4)]"
      using replaced(1) eq by simp
    have st: "status info = ''partial_success''" using replaced(2) eq by simp
    have fl: "filter is_delete (new_calls w w') = [CDelete [asset_id asset] (False, e4)]"
      using n fp rs by simp
    have sh: "new_calls w w' = pre @ [CUpload p a b c d f (Some nid, e1),
        CCopy (asset_id asset) nid (True, e2), CGet nid (True, e3),
        CDelete [asset_id asset] (False, e4)]"
      using n rs by simp
    show ?thesis using r st fl sh replaced(3) np by blast
  qed
qed

text \<open>The calls of the run in which the delete of the original is answered with 400.\<close>

lemma kept_original_run_calls:
  "new_calls (world_of Map.empty) (snd kept_original_run) =
     [CDownload ''a1'' ''/work/in/a1.bin'' (32, None),
      CTranscode ''/work/in/a1.bin'' ''/work/out/a1.jxl'' 1
        (ok_result ''/work/in/a1.bin'' ''/work/out/a1.jxl'' 32 32 ''jpg''),
      CValidate ''/work/out/a1.jxl'' ''jxl'' True,
      CUpload ''/work/out/a1.jxl'' ''a1-jxl'' ''phone'' ''2024-01-01T00:00:00Z''
        ''2024-01-01T00:00:00Z'' (Some ''IMG_0001.jxl'') (Some ''n1'', None),
      CCopy ''a1'' ''n1'' (True, None), CGet ''n1'' (True, None),
      CDelete [''a1''] (False, Some ''Delete failed: HTTP 400'')]"
  by code_simp

text \<open>C7 at that run.\<close>

theorem original_delete_failure_is_partial_success_witness:
  "CGet ''n1'' (True, None) \<in> set (new_calls (world_of Map.empty) (snd kept_original_run)) \<and>
   CDelete [asset_id photo] (False, Some ''Delete failed: HTTP 400'')
     \<in> set (new_calls (world_of Map.empty) (snd kept_original_run)) \<and>
   (\<exists>info. fst kept_original_run = Inr info \<and> status info = ''partial_success'') \<and>
   filter is_delete (new_calls (world_of Map.empty) (snd kept_original_run))
     = [CDelete [asset_id photo] (False, Some ''Delete failed: HTTP 400'')]"
proof -
  have run: "process_asset default_client
       (scripted_env [(Exited 0 [] [], Written jxl_file)]
          [reply 200 jpeg_file (NotJson []), reply 201 [] (JsonObject (Some ''n1'')),
           reply 204 [] (NotJson []), reply 200 [] (JsonObject (Some ''n1'')),
           reply 400 [] (NotJson [])] [])
       photo default_config (world_of Map.empty)
      = (fst kept_original_run, snd kept_original_run)"
    by (simp add: kept_original_run_def)
  have g: "CGet ''n1'' (True, None)
      \<in> set (new_calls (world_of Map.empty) (snd kept_original_run))"
    by (simp add: kept_original_run_calls)
  have d: "CDelete [asset_id photo] (False, Some ''Delete failed: HTTP 400'')
      \<in> set (new_calls (world_of Map.empty) (snd kept_original_run))"
    by (simp add: kept_original_run_calls photo_def)
  from original_delete_failure_is_partial_success[OF run g d] g d show ?thesis by blast
qed

section \<open>Properties of the scratch files\<close>

lemma path_join_nonempty: "b \<noteq> [] \<Longrightarrow> path_join a b \<noteq> []"
  by (simp add: path_join_def)

lemma scratch_paths_nonempty:
  "scratch_input config asset \<noteq> []" "scratch_output config asset \<noteq> []"
  by (simp_all add: scratch_input_def scratch_output_def path_join_nonempty)

lemma cleanup_removes:
  "p \<noteq> [] \<Longrightarrow> \<not> remove_denied env p \<Longrightarrow> \<not> path_exists (files (cleanup env p w)) p"
  by (simp add: cleanup_def path_exists_def)

lemma cleanup_keeps_absent:
  "\<not> path_exists (files w) q \<Longrightarrow> \<not> path_exists (files (cleanup env p w)) q"
  by (simp add: cleanup_def path_exists_def)

text \<open>
  Claim C6, as amended. The pre-filter skip returns before anything is created and leaves
  the world as it was. On every other exit path of \<open>process_asset\<close>, whether it returns a
  status or raises, each of the two scratch paths for which \<open>os.remove\<close> does not fail does
  not exist afterwards.
\<close>

theorem scratch_files_removed:
  assumes "process_asset cl env asset config w = (r, w')"
  shows "(asset_type asset \<noteq> ''VIDEO'' \<and> should_skip_by_mime_type asset \<longrightarrow> w' = w) \<and>
     (\<not> (asset_type asset \<noteq> ''VIDEO'' \<and> should_skip_by_mime_type asset) \<longrightarrow>
        (\<not> remove_denied env (scratch_input config asset)
           \<longrightarrow> \<not> path_exists (files w') (scratch_input config asset)) \<and>
        (\<not> remove_denied env (scratch_output config asset)
           \<longrightarrow> \<not> path_exists (files w') (scratch_output config asset)))"
proof (cases "asset_type asset \<noteq> ''VIDEO'' \<and> should_skip_by_mime_type asset")
  case True
  then have "w' = w" using assms by (simp add: process_asset_def)
  then show ?thesis using True by simp
next
  case False
  obtain r1 w1 where b: "process_body cl env asset config (scratch_input config asset)
      (scratch_output config asset) w = (r1, w1)"
    by (cases "process_body cl env asset config (scratch_input config asset)
      (scratch_output config asset) w")
  have w': "w' = cleanup env (scratch_output config asset)
      (cleanup env (scratch_input config asset) w1)"
    using assms False b by (simp add: process_asset_def)
  have i: "\<not> path_exists (files w') (scratch_input config asset)"
    if "\<not> remove_denied env (scratch_input config asset)"
    unfolding w'
    by (intro cleanup_keeps_absent cleanup_removes scratch_paths_nonempty that)
  have out: "\<not> path_exists (files w') (scratch_output config asset)"
    if "\<not> remove_denied env (scratch_output config asset)"
    unfolding w' by (intro cleanup_removes scratch_paths_nonempty that)
  show ?thesis using False i out by blast
qed

text \<open>C6 at the run in which every request succeeds.\<close>

theorem scratch_files_removed_witness:
  "\<not> (asset_type photo \<noteq> ''VIDEO'' \<and> should_skip_by_mime_type photo) \<and>
   \<not> path_exists (files (snd replaced_run)) (scratch_input default_config photo) \<and>
   \<not> path_exists (files (snd replaced_run)) (scratch_output default_config photo)"
proof -
  let ?env = "scripted_env [(Exited 0 [] [], Written jxl_file)]
          [reply 200 jpeg_file (NotJson []), reply 201 [] (JsonObject (Some ''n1'')),
           reply 204 [] (NotJson []), reply 200 [] (JsonObject (Some ''n1'')),
           reply 204 [] (NotJson [])] []"
  have run: "process_asset default_client ?env photo default_config (world_of Map.empty)
      = (fst replaced_run, snd replaced_run)"
    by (simp add: replaced_run_def)
  have nf: "\<not> (asset_type photo \<noteq> ''VIDEO'' \<and> should_skip_by_mime_type photo)"
    by code_simp
  have nd: "\<not> remove_denied ?env p" for p
    by (simp add: scripted_env_def)
  from scratch_files_removed[OF run] nf nd show ?thesis by blast
qed

text \<open>
  Claim C6 as it was stated fails: when \<open>os.remove\<close> raises \<open>OSError\<close> for the input scratch
  path, the error is caught and logged, and the downloaded file is still there after
  \<open>process_asset\<close> has returned \<open>failed_transcode\<close>.
\<close>

theorem scratch_file_left_counterexample:
  "map_sum id status (fst stuck_run) = Inr ''failed_transcode'' \<and>
   scratch_input default_config photo = ''/work/in/a1.bin'' \<and>
   path_exists (files (snd stuck_run)) (scratch_input default_config photo)"
  by code_simp

section \<open>Properties of authentication failures\<close>

lemma request_attempts_auth:
  assumes "http_send env (length (filter is_sent (net_log w))) rq = Response resp"
    and "status_code resp = 401 \<or> status_code resp = 403"
  shows "request_attempts cl env rq attempt w
     = (Inl (RuntimeError (auth_message (status_code resp))),
        w\<lparr>net_log := net_log w @ [Sent rq]\<rparr>)"
  using assms
  by (subst request_attempts.simps) (auto simp: requests_request_def auth_message_def)

lemma upload_attempts_auth:
  assumes "http_send env (length (filter is_sent (net_log w))) rq = Response resp"
    and "status_code resp = 401 \<or> status_code resp = 403"
    and "read_prefix (files w) fp 0 = Inr opened"
  shows "upload_attempts cl env fp rq attempt w
     = ((None, Some (auth_message (status_code resp))),
        w\<lparr>net_log := net_log w @ [Sent rq]\<rparr>)"
  using assms
  by (subst upload_attempts.simps) (auto simp: requests_request_def auth_message_def)

lemma download_original_auth:
  assumes "http_send env (length (filter is_sent (net_log w))) (GetOriginal aid) = Response resp"
    and "status_code resp = 401 \<or> status_code resp = 403"
  shows "download_original cl env aid p w
     = ((0, Some (''Download failed: '' @ auth_message (status_code resp))),
        w\<lparr>net_log := net_log w @ [Sent (GetOriginal aid)]\<rparr>)"
proof -
  have "request_with_retry cl env (GetOriginal aid) w
     = (Inl (RuntimeError (auth_message (status_code resp))),
        w\<lparr>net_log := net_log w @ [Sent (GetOriginal aid)]\<rparr>)"
    unfolding request_with_retry_def by (rule request_attempts_auth[OF assms])
  then show ?thesis by (simp add: download_original_def)
qed

lemma cleanup_net_log: "net_log (cleanup env p w) = net_log w"
  by (simp add: cleanup_def)

lemma process_asset_auth_download:
  assumes nf: "\<not> (asset_type asset \<noteq> ''VIDEO'' \<and> should_skip_by_mime_type asset)"
    and nd: "\<not> (dry_run config \<and> asset_type asset \<noteq> ''VIDEO'')"
    and "http_send env (length (filter is_sent (net_log w))) (GetOriginal (asset_id asset))
      = Response resp"
    and "status_code resp = 401 \<or> status_code resp = 403"
  shows "fst (process_asset cl env asset config w) = Inr (initial_info\<lparr>status := ''failed_download''\<rparr>)"
    and "net_log (snd (process_asset cl env asset config w))
      = net_log w @ [Sent (GetOriginal (asset_id asset))]"
proof -
  let ?inp = "scratch_input config asset"
  let ?msg = "Some (''Download failed: '' @ auth_message (status_code resp))"
  let ?w1 = "w\<lparr>net_log := net_log w @ [Sent (GetOriginal (asset_id asset))]\<rparr>"
  have d: "download_original cl env (asset_id asset) ?inp w = ((0, ?msg), ?w1)"
    by (rule download_original_auth[OF assms(3,4)])
  have t: "truthy ?msg" by (simp add: truthy_def)
  have ds: "download_stage cl env asset config (asset_type asset = ''VIDEO'') ?inp initial_info w
      = (Return (initial_info\<lparr>status := ''failed_download''\<rparr>),
         log_call (CDownload (asset_id asset) ?inp (0, ?msg)) ?w1)"
    unfolding download_stage_def using nd by (simp only: d prod.case Let_def if_P[OF t]) simp
  have b: "process_body cl env asset config ?inp (scratch_output config asset) w
      = (Inr (initial_info\<lparr>status := ''failed_download''\<rparr>),
         log_call (CDownload (asset_id asset) ?inp (0, ?msg)) ?w1)"
    using ds by (simp add: process_body_def initial_info_def)
  show "fst (process_asset cl env asset config w)
      = Inr (initial_info\<lparr>status := ''failed_download''\<rparr>)"
    unfolding process_asset_def by (simp only: if_not_P[OF nf] b prod.case fst_conv)
  show "net_log (snd (process_asset cl env asset config w))
      = net_log w @ [Sent (GetOriginal (asset_id asset))]"
    unfolding process_asset_def
    by (simp only: if_not_P[OF nf] b prod.case snd_conv) (simp add: cleanup_net_log log_call_def)
qed

lemma replace_stage_auth_upload:
  assumes "http_send env (length (filter is_sent (net_log w)))
      (PostAsset out (asset_id asset @ ''-'' @ tf) (device_id asset) (file_created_at asset)
         (file_modified_at asset) (Some (fst (splitext (original_file_name asset)) @ ''.'' @ tf)))
      = Response resp"
    and "status_code resp = 401 \<or> status_code resp = 403"
    and "read_prefix (files w) out 0 = Inr opened"
  shows "status (fst (replace_stage cl env asset tf out ib ob info w)) = ''failed_upload''"
proof -
  have u: "upload_asset cl env out (asset_id asset @ ''-'' @ tf) (device_id asset)
      (file_created_at asset) (file_modified_at asset)
      (Some (fst (splitext (original_file_name asset)) @ ''.'' @ tf)) w
     = ((None, Some (auth_message (status_code resp))),
        w\<lparr>net_log := net_log w @ [Sent (PostAsset out (asset_id asset @ ''-'' @ tf)
          (device_id asset) (file_created_at asset) (file_modified_at asset)
          (Some (fst (splitext (original_file_name asset)) @ ''.'' @ tf)))]\<rparr>)"
    unfolding upload_asset_def using upload_attempts_auth[OF _ assms(2,3)] assms(1) by simp
  show ?thesis
    unfolding replace_stage_def Let_def by (simp only: u prod.case option.case) simp
qed




section \<open>Properties of the quality retry\<close>

lemma is_upload_replace: "is_upload c \<Longrightarrow> is_replace_call c"
  by (cases c) simp_all

lemma replace_trace_counts:
  assumes "replace_trace asset rs st"
  shows "filter is_attempt rs = []" and "length (filter is_upload rs) = 1"
  using assms by (cases; simp)+

lemma new_calls_append:
  "calls w1 = calls w @ xs \<Longrightarrow> new_calls w w1 = xs"
  by (simp add: new_calls_def)

lemma download_stage_quiet:
  assumes "download_stage cl env asset config is_video inp info w = (fl, w1)"
  shows "\<exists>cs. calls w1 = calls w @ cs \<and> filter is_attempt cs = [] \<and> filter is_upload cs = []"
proof -
  from download_stage_calls[OF assms] obtain cs where cs: "calls w1 = calls w @ cs"
    and k: "\<forall>c \<in> set cs. (\<exists>a p r. c = CDownload a p r) \<or> (\<exists>p r. c = CDetectCodec p r)"
    by blast
  from k have "\<forall>c \<in> set cs. \<not> is_attempt c \<and> \<not> is_upload c" by auto
  then have "filter is_attempt cs = []" "filter is_upload cs = []"
    by (auto simp: filter_empty_conv)
  with cs show ?thesis by blast
qed

text \<open>The calls up to and including the first attempt and its validation.\<close>

lemma first_attempt_calls:
  assumes d: "download_stage cl env asset config is_video inp info w = (Next (ib, info1), w1)"
    and t: "transcode_stage env config is_video inp out info1 w1 = (Next (ob, info2), w2)"
  shows "\<exists>cs result. calls w2 = calls w @ cs
      \<and> filter is_attempt cs = [attempt_call config is_video (video_crf config)
             (image_distance config) inp out result]
      \<and> filter is_upload cs = []"
proof -
  from download_stage_quiet[OF d] obtain c1 where c1: "calls w1 = calls w @ c1"
    and q1: "filter is_attempt c1 = []" "filter is_upload c1 = []" by blast
  from transcode_stage_next[OF t] obtain result vc where
    c2: "calls w2 = calls w1 @ [attempt_call config is_video (video_crf config)
             (image_distance config) inp out result, vc]"
    and v: "\<not> is_attempt vc" "\<not> is_replace_call vc" by blast
  have nu: "\<not> is_upload vc" using v(2) is_upload_replace by blast
  let ?a = "attempt_call config is_video (video_crf config) (image_distance config) inp out result"
  have "calls w2 = calls w @ (c1 @ [?a, vc])" using c1 c2 by simp
  moreover have "filter is_attempt (c1 @ [?a, vc]) = [?a]" using q1 v by simp
  moreover have "filter is_upload (c1 @ [?a, vc]) = []" using q1 nu by simp
  ultimately show ?thesis by blast
qed

text \<open>What \<open>process_asset\<close> does once the first attempt is through, by what the retry
  decision gives.\<close>

lemma process_asset_decided:
  assumes nf: "\<not> (asset_type asset \<noteq> ''VIDEO'' \<and> should_skip_by_mime_type asset)"
    and d: "download_stage cl env asset config (asset_type asset = ''VIDEO'')
        (scratch_input config asset) initial_info w = (Next (ib, info1), w1)"
    and t: "transcode_stage env config (asset_type asset = ''VIDEO'') (scratch_input config asset)
        (scratch_output config asset) info1 w1 = (Next (ob, info2), w2)"
    and q: "retry_stage env config (asset_type asset = ''VIDEO'') (scratch_input config asset)
        (scratch_output config asset) ib ob info2 w2 = (fl, w3)"
  shows "fl = Return res \<Longrightarrow>
      process_asset cl env asset config w
        = (Inr res, cleanup env (scratch_output config asset)
             (cleanup env (scratch_input config asset) w3))"
    and "fl = Next (ob', info3) \<Longrightarrow>
      replace_stage cl env asset (get_target_format asset) (scratch_output config asset)
        ib ob' info3 w3 = (r4, w4) \<Longrightarrow>
      process_asset cl env asset config w
        = (Inr r4, cleanup env (scratch_output config asset)
             (cleanup env (scratch_input config asset) w4))"
proof -
  have d': "download_stage cl env asset config (asset_type asset = ''VIDEO'')
        (scratch_input config asset)
        \<lparr>status = ''unknown'', info_input_bytes = 0, info_output_bytes = 0, savings_pct = 0\<rparr> w
      = (Next (ib, info1), w1)"
    using d by (simp only: initial_info_def)
  show "process_asset cl env asset config w
        = (Inr res, cleanup env (scratch_output config asset)
             (cleanup env (scratch_input config asset) w3))" if "fl = Return res"
    unfolding process_asset_def process_body_def Let_def
    by (simp only: if_not_P[OF nf] d' t q[unfolded that] prod.case flow.case)
  show "process_asset cl env asset config w
        = (Inr r4, cleanup env (scratch_output config asset)
             (cleanup env (scratch_input config asset) w4))"
    if "fl = Next (ob', info3)"
      and "replace_stage cl env asset (get_target_format asset) (scratch_output config asset)
        ib ob' info3 w3 = (r4, w4)"
    unfolding process_asset_def process_body_def Let_def
    by (simp only: if_not_P[OF nf] d' t q[unfolded that(1)] that(2) prod.case flow.case)
qed



end
